theory Spec2Isabelle
  imports Main
begin

section \<open>The deploy subcommand of mediawiki-utils-go\<close>

text \<open>
  A shallow embedding of \<^verbatim>\<open>internal\<close>'s deploy code (the second part of
  \<^verbatim>\<open>src/main.go\<close>). Go strings are \<open>string\<close>, slices are lists, a Go
  \<^verbatim>\<open>error\<close> is its message (\<open>None\<close> is \<^verbatim>\<open>nil\<close>). The package-level
  variables are a record that is passed around; external processes are run by an
  executor over an abstract world, and everything the program does to the outside is
  appended to a trace.
\<close>

subsection \<open>Constants and data\<close>

definition DEPLOYUSER :: string where
  "DEPLOYUSER = ''mediawikiuser''"

definition EXTENSIONPATH :: string where
  "EXTENSIONPATH = ''/prod/mediawiki-staging/extensions/''"

definition SKINPATH :: string where
  "SKINPATH = ''/prod/mediawiki-staging/skins/''"

definition STAGINGPATH :: string where
  "STAGINGPATH = ''/prod/mediawiki-staging''"

definition PRODUCTIONPATH :: string where
  "PRODUCTIONPATH = ''/prod/mediawiki''"

definition ALLSERVERS :: "string list" where
  "ALLSERVERS = [''mw1'', ''mw2'', ''mwtask1'']"

record DeployConfig =
  UpgradeExtensions :: "string list"
  UpgradeSkins :: "string list"
  UpgradeVendor :: bool
  UpgradeWorld :: bool
  L10n :: bool
  Lang :: string
  Servers :: "string list"
  IgnoreTime :: bool
  Force :: bool

text \<open>The package-level variables \<^verbatim>\<open>HOSTNAME\<close>, \<^verbatim>\<open>VALIDEXTENSIONS\<close> and
  \<^verbatim>\<open>VALIDSKINS\<close>. At process start they hold Go's zero values.\<close>

record globals =
  HOSTNAME :: string
  VALIDEXTENSIONS :: "string list"
  VALIDSKINS :: "string list"

definition initial_globals :: globals where
  "initial_globals = \<lparr>HOSTNAME = [], VALIDEXTENSIONS = [], VALIDSKINS = []\<rparr>"

subsection \<open>Helpers\<close>

fun contains :: "string list \<Rightarrow> string \<Rightarrow> bool" where
  "contains [] item = False"
| "contains (s # slice) item = (if s = item then True else contains slice item)"

text \<open>\<^verbatim>\<open>strings.Split(s, sep)\<close> for a separator of one character (every call in the
  source passes one): the pieces between the separators, one more than there are
  separators.\<close>

fun strings_Split :: "string \<Rightarrow> char \<Rightarrow> string list" where
  "strings_Split [] sep = [[]]"
| "strings_Split (c # cs) sep =
     (if c = sep then [] # strings_Split cs sep
      else (case strings_Split cs sep of
              [] \<Rightarrow> [[c]]
            | w # ws \<Rightarrow> (c # w) # ws))"

subsection \<open>Effects: external commands, output, the trace\<close>

text \<open>An \<^verbatim>\<open>exec.Cmd\<close>: program, arguments, working directory (empty: the
  caller's), and whether stdout and stderr are forwarded.\<close>

record command =
  cmd_name :: string
  cmd_args :: "string list"
  cmd_dir :: string
  cmd_forward :: bool

text \<open>The six step functions \<^verbatim>\<open>executeDeploy\<close> calls.\<close>

datatype step =
    UpdateVendor
  | UpdateExtension string
  | UpdateSkin string
  | RsyncToLocalProduction
  | RebuildL10n
  | RsyncToRemoteServer string

text \<open>What a run leaves behind, in order: a line printed (without its newline), a
  message logged by \<^verbatim>\<open>log.Fatal\<close> (without the logger's time stamp), a process
  run, and the entry and the return (with the error returned) of a step function.\<close>

datatype event =
    Stdout string
  | Stderr string
  | Exec command
  | Enter step
  | Leave step "string option"

text \<open>Running a process changes the world and yields \<^verbatim>\<open>cmd.Run()\<close>'s error.\<close>

type_synonym 'w executor = "command \<Rightarrow> 'w \<Rightarrow> string option \<times> 'w"

record 'w sys =
  world :: 'w
  trace :: "event list"

definition emit :: "event \<Rightarrow> 'w sys \<Rightarrow> 'w sys" where
  "emit e s = s\<lparr>trace := trace s @ [e]\<rparr>"

definition cmd_Run :: "'w executor \<Rightarrow> command \<Rightarrow> 'w sys \<Rightarrow> string option \<times> 'w sys" where
  "cmd_Run ex c s =
     (case ex c (world s) of
        (r, w') \<Rightarrow> (r, \<lparr>world = w', trace = trace s @ [Exec c]\<rparr>))"

definition runCommand ::
  "'w executor \<Rightarrow> string \<Rightarrow> string list \<Rightarrow> 'w sys \<Rightarrow> string option \<times> 'w sys" where
  "runCommand ex name args s =
     cmd_Run ex \<lparr>cmd_name = name, cmd_args = args, cmd_dir = [], cmd_forward = True\<rparr> s"

definition rsync_command :: "string \<Rightarrow> string \<Rightarrow> string \<Rightarrow> command" where
  "rsync_command params src dst =
     \<lparr>cmd_name = ''rsync'',
      cmd_args = strings_Split params (CHR '' '')
                 @ [''-r'', ''--delete'', ''--exclude=.*'', src, dst],
      cmd_dir = [], cmd_forward = True\<rparr>"

definition runRsync ::
  "'w executor \<Rightarrow> string \<Rightarrow> string \<Rightarrow> string \<Rightarrow> 'w sys \<Rightarrow> string option \<times> 'w sys" where
  "runRsync ex params src dst s = cmd_Run ex (rsync_command params src dst) s"

text \<open>A step function's body, bracketed by its entry and its return in the trace.\<close>

definition traced ::
  "step \<Rightarrow> ('w sys \<Rightarrow> string option \<times> 'w sys) \<Rightarrow> 'w sys \<Rightarrow> string option \<times> 'w sys" where
  "traced st body s =
     (case body (emit (Enter st) s) of
        (r, s') \<Rightarrow> (r, emit (Leave st r) s'))"

subsection \<open>Validation\<close>

fun validateExtensions :: "string list \<Rightarrow> string list \<Rightarrow> string option" where
  "validateExtensions valid [] = None"
| "validateExtensions valid (ext # rest) =
     (if \<not> contains valid ext then Some (''invalid extension: '' @ ext)
      else validateExtensions valid rest)"

fun validateSkins :: "string list \<Rightarrow> string list \<Rightarrow> string option" where
  "validateSkins valid [] = None"
| "validateSkins valid (skin # rest) =
     (if \<not> contains valid skin then Some (''invalid skin: '' @ skin)
      else validateSkins valid rest)"

definition validateConfig :: "globals \<Rightarrow> DeployConfig \<Rightarrow> string option" where
  "validateConfig g config =
     (case validateExtensions (VALIDEXTENSIONS g) (UpgradeExtensions config) of
        Some err \<Rightarrow> Some err
      | None \<Rightarrow>
     (case validateSkins (VALIDSKINS g) (UpgradeSkins config) of
        Some err \<Rightarrow> Some err
      | None \<Rightarrow>
     if length (Servers config) = 0 then Some ''at least one server required''
     else if Lang config \<noteq> [] \<and> \<not> L10n config then Some ''--lang requires --l10n flag''
     else None))"

subsection \<open>The step functions\<close>

definition updateVendor :: "'w executor \<Rightarrow> 'w sys \<Rightarrow> string option \<times> 'w sys" where
  "updateVendor ex = traced UpdateVendor (\<lambda>s.
     let vendorPath = STAGINGPATH @ ''/vendor'' in
     case runCommand ex ''git'' [''-C'', vendorPath, ''reset'', ''--hard''] s of
       (Some err, s1) \<Rightarrow> (Some (''failed to reset vendor: '' @ err), s1)
     | (None, s1) \<Rightarrow>
     (case runCommand ex ''git''
             [''-C'', vendorPath, ''pull'', ''--recurse-submodules'', ''origin'',
              ''REL1_43'', ''--quiet''] s1 of
        (Some err, s2) \<Rightarrow> (Some (''failed to pull vendor: '' @ err), s2)
      | (None, s2) \<Rightarrow>
     (case cmd_Run ex \<lparr>cmd_name = ''composer'',
                       cmd_args = [''update'', ''--no-dev'', ''--quiet''],
                       cmd_dir = STAGINGPATH, cmd_forward = False\<rparr> s2 of
        (Some err, s3) \<Rightarrow> (Some (''failed to run composer update: '' @ err), s3)
      | (None, s3) \<Rightarrow> (None, s3))))"

definition updateExtension ::
  "'w executor \<Rightarrow> string \<Rightarrow> 'w sys \<Rightarrow> string option \<times> 'w sys" where
  "updateExtension ex extension = traced (UpdateExtension extension) (\<lambda>s.
     let extPath = EXTENSIONPATH @ ''/'' @ extension in
     case runCommand ex ''git''
            [''-C'', extPath, ''pull'', ''--recurse-submodules'', ''--quiet''] s of
       (Some err, s1) \<Rightarrow>
         (Some (''failed to update extension '' @ extension @ '': '' @ err), s1)
     | (None, s1) \<Rightarrow> (None, s1))"

definition updateSkin ::
  "'w executor \<Rightarrow> string \<Rightarrow> 'w sys \<Rightarrow> string option \<times> 'w sys" where
  "updateSkin ex skin = traced (UpdateSkin skin) (\<lambda>s.
     let skinPath = SKINPATH @ ''/'' @ skin in
     case runCommand ex ''git'' [''-C'', skinPath, ''pull'', ''--quiet''] s of
       (Some err, s1) \<Rightarrow> (Some (''failed to update skin '' @ skin @ '': '' @ err), s1)
     | (None, s1) \<Rightarrow> (None, s1))"

text \<open>The two loops of \<^verbatim>\<open>rsyncToLocalProduction\<close> differ only in the paths they
  build; \<open>rsyncEach\<close> is that loop, returning at the first error.\<close>

fun rsyncEach ::
  "'w executor \<Rightarrow> string \<Rightarrow> (string \<Rightarrow> string \<times> string) \<Rightarrow> string list \<Rightarrow> 'w sys
   \<Rightarrow> string option \<times> 'w sys" where
  "rsyncEach ex params paths [] s = (None, s)"
| "rsyncEach ex params paths (name # rest) s =
     (case runRsync ex params (fst (paths name)) (snd (paths name)) s of
        (Some err, s1) \<Rightarrow> (Some err, s1)
      | (None, s1) \<Rightarrow> rsyncEach ex params paths rest s1)"

definition localRsyncParams :: "DeployConfig \<Rightarrow> string" where
  "localRsyncParams config = (if IgnoreTime config then ''--inplace'' else ''--update'')"

definition extensionPaths :: "string \<Rightarrow> string \<times> string" where
  "extensionPaths ext =
     (EXTENSIONPATH @ ''/'' @ ext @ ''/'', PRODUCTIONPATH @ ''/extensions/'' @ ext @ ''/'')"

definition skinPaths :: "string \<Rightarrow> string \<times> string" where
  "skinPaths skin =
     (SKINPATH @ ''/'' @ skin @ ''/'', PRODUCTIONPATH @ ''/skins/'' @ skin @ ''/'')"

definition rsyncToLocalProduction ::
  "'w executor \<Rightarrow> DeployConfig \<Rightarrow> 'w sys \<Rightarrow> string option \<times> 'w sys" where
  "rsyncToLocalProduction ex config = traced RsyncToLocalProduction (\<lambda>s.
     let rsyncParams = localRsyncParams config in
     case (if UpgradeVendor config
           then runRsync ex rsyncParams (STAGINGPATH @ ''/vendor/'')
                  (PRODUCTIONPATH @ ''/vendor/'') s
           else (None, s)) of
       (Some err, s1) \<Rightarrow> (Some err, s1)
     | (None, s1) \<Rightarrow>
     (case rsyncEach ex rsyncParams extensionPaths (UpgradeExtensions config) s1 of
        (Some err, s2) \<Rightarrow> (Some err, s2)
      | (None, s2) \<Rightarrow>
     (case rsyncEach ex rsyncParams skinPaths (UpgradeSkins config) s2 of
        (Some err, s3) \<Rightarrow> (Some err, s3)
      | (None, s3) \<Rightarrow> (None, s3))))"

definition rebuildL10n :: "'w executor \<Rightarrow> string \<Rightarrow> 'w sys \<Rightarrow> string option \<times> 'w sys" where
  "rebuildL10n ex lang = traced RebuildL10n (\<lambda>s.
     let mergeScript =
           PRODUCTIONPATH @ ''/extensions/TelepediaMagic/maintenance/mergeMessageFileList.php'' in
     case cmd_Run ex \<lparr>cmd_name = ''php'',
                      cmd_args = [mergeScript, ''--quiet'', ''--wiki=metawiki'',
                        ''--extensions-dir=/prod/mediawiki/extensions:/prod/mediawiki/skins'',
                        ''--output'', PRODUCTIONPATH @ ''/config/ExtensionMessageFiles.php''],
                      cmd_dir = [], cmd_forward = False\<rparr> s of
       (Some err, s1) \<Rightarrow> (Some (''failed to merge message files: '' @ err), s1)
     | (None, s1) \<Rightarrow>
     (let rebuildScript = PRODUCTIONPATH @ ''/maintenance/rebuildLocalisationCache.php'';
          args = [rebuildScript, ''--quiet'', ''--wiki=metawiki''];
          args = (if lang \<noteq> [] then args @ [''--lang='' @ lang] else args)
      in case cmd_Run ex \<lparr>cmd_name = ''php'', cmd_args = args,
                          cmd_dir = [], cmd_forward = False\<rparr> s1 of
           (Some err, s2) \<Rightarrow> (Some (''failed to rebuild l10n cache: '' @ err), s2)
         | (None, s2) \<Rightarrow> (None, s2)))"

definition remoteRsyncParams :: "DeployConfig \<Rightarrow> string" where
  "remoteRsyncParams config =
     (let rsyncParams = ''-e ssh -i /prod/mediawiki-staging/deploykey'' in
      if IgnoreTime config then ''--inplace '' @ rsyncParams
      else ''--update '' @ rsyncParams)"

definition remoteRsyncCommand :: "string \<Rightarrow> DeployConfig \<Rightarrow> command" where
  "remoteRsyncCommand server config =
     rsync_command (remoteRsyncParams config) (PRODUCTIONPATH @ ''/'')
       (DEPLOYUSER @ ''@'' @ server @ '':'' @ PRODUCTIONPATH @ ''/'')"

definition rsyncToRemoteServer ::
  "'w executor \<Rightarrow> string \<Rightarrow> DeployConfig \<Rightarrow> 'w sys \<Rightarrow> string option \<times> 'w sys" where
  "rsyncToRemoteServer ex server config = traced (RsyncToRemoteServer server) (\<lambda>s.
     runRsync ex (remoteRsyncParams config) (PRODUCTIONPATH @ ''/'')
       (DEPLOYUSER @ ''@'' @ server @ '':'' @ PRODUCTIONPATH @ ''/'') s)"

subsection \<open>The orchestrator\<close>

text \<open>Where \<^verbatim>\<open>executeDeploy\<close> stands after a statement: it has returned an error,
  or it goes on with the exit codes collected so far.\<close>

datatype 'w ctl =
    Return string "'w sys"
  | Continue "int list" "'w sys"

text \<open>The statement \<^verbatim>\<open>if err := f(); err != nil { exitCodes = append(exitCodes, 1);
  if !config.Force { return err } }\<close>, applied to what \<^verbatim>\<open>f()\<close> gave.\<close>

definition onError :: "bool \<Rightarrow> int list \<Rightarrow> string option \<times> 'w sys \<Rightarrow> 'w ctl" where
  "onError force exitCodes r =
     (case r of
        (None, s) \<Rightarrow> Continue exitCodes s
      | (Some err, s) \<Rightarrow>
          (let exitCodes = exitCodes @ [1]
           in if \<not> force then Return err s else Continue exitCodes s))"

fun updateExtensionsLoop ::
  "'w executor \<Rightarrow> DeployConfig \<Rightarrow> string list \<Rightarrow> int list \<Rightarrow> 'w sys \<Rightarrow> 'w ctl" where
  "updateExtensionsLoop ex config [] exitCodes s = Continue exitCodes s"
| "updateExtensionsLoop ex config (ext # rest) exitCodes s =
     (case onError (Force config) exitCodes
             (updateExtension ex ext (emit (Stdout (''Updating extension: '' @ ext)) s)) of
        Return err s' \<Rightarrow> Return err s'
      | Continue exitCodes' s' \<Rightarrow> updateExtensionsLoop ex config rest exitCodes' s')"

fun updateSkinsLoop ::
  "'w executor \<Rightarrow> DeployConfig \<Rightarrow> string list \<Rightarrow> int list \<Rightarrow> 'w sys \<Rightarrow> 'w ctl" where
  "updateSkinsLoop ex config [] exitCodes s = Continue exitCodes s"
| "updateSkinsLoop ex config (skin # rest) exitCodes s =
     (case onError (Force config) exitCodes
             (updateSkin ex skin (emit (Stdout (''Updating skin: '' @ skin)) s)) of
        Return err s' \<Rightarrow> Return err s'
      | Continue exitCodes' s' \<Rightarrow> updateSkinsLoop ex config rest exitCodes' s')"

fun remoteLoop ::
  "'w executor \<Rightarrow> string \<Rightarrow> DeployConfig \<Rightarrow> string list \<Rightarrow> int list \<Rightarrow> 'w sys \<Rightarrow> 'w ctl" where
  "remoteLoop ex hostname config [] exitCodes s = Continue exitCodes s"
| "remoteLoop ex hostname config (server # rest) exitCodes s =
     (if server = hostname then remoteLoop ex hostname config rest exitCodes s
      else
        (case onError (Force config) exitCodes
                (rsyncToRemoteServer ex server config
                   (emit (Stdout (''Syncing to remote server: '' @ server)) s)) of
           Return err s' \<Rightarrow> Return err s'
         | Continue exitCodes' s' \<Rightarrow> remoteLoop ex hostname config rest exitCodes' s'))"

fun exitCodesError :: "int list \<Rightarrow> string option" where
  "exitCodesError [] = None"
| "exitCodesError (code # rest) =
     (if code \<noteq> 0 then Some ''deployment completed with errors''
      else exitCodesError rest)"

text \<open>The body of \<^verbatim>\<open>if contains(config.Servers, HOSTNAME) { ... }\<close>.\<close>

definition localBlock ::
  "'w executor \<Rightarrow> DeployConfig \<Rightarrow> int list \<Rightarrow> 'w sys \<Rightarrow> 'w ctl" where
  "localBlock ex config exitCodes s =
     (case (if UpgradeVendor config
            then onError (Force config) exitCodes
                   (updateVendor ex (emit (Stdout ''Updating vendor...'') s))
            else Continue exitCodes s) of
        Return err s1 \<Rightarrow> Return err s1
      | Continue exitCodes1 s1 \<Rightarrow>
     (case updateExtensionsLoop ex config (UpgradeExtensions config) exitCodes1 s1 of
        Return err s2 \<Rightarrow> Return err s2
      | Continue exitCodes2 s2 \<Rightarrow>
     (case updateSkinsLoop ex config (UpgradeSkins config) exitCodes2 s2 of
        Return err s3 \<Rightarrow> Return err s3
      | Continue exitCodes3 s3 \<Rightarrow>
     (case onError (Force config) exitCodes3 (rsyncToLocalProduction ex config s3) of
        Return err s4 \<Rightarrow> Return err s4
      | Continue exitCodes4 s4 \<Rightarrow>
     (if L10n config
      then onError (Force config) exitCodes4
             (rebuildL10n ex (Lang config)
                (emit (Stdout ''Rebuilding localization cache...'') s4))
      else Continue exitCodes4 s4)))))"

definition executeDeploy ::
  "'w executor \<Rightarrow> globals \<Rightarrow> DeployConfig \<Rightarrow> 'w sys \<Rightarrow> string option \<times> 'w sys" where
  "executeDeploy ex g config s =
     (case (if contains (Servers config) (HOSTNAME g) then localBlock ex config [] s
            else Continue [] s) of
        Return err s1 \<Rightarrow> (Some err, s1)
      | Continue exitCodes1 s1 \<Rightarrow>
     (case remoteLoop ex (HOSTNAME g) config (Servers config) exitCodes1 s1 of
        Return err s2 \<Rightarrow> (Some err, s2)
      | Continue exitCodes2 s2 \<Rightarrow> (exitCodesError exitCodes2, s2)))"

subsection \<open>Flags, inventory and \<^verbatim>\<open>RunDeploy\<close>\<close>

text \<open>The values of the flags after \<^verbatim>\<open>deployCmd.Parse(args)\<close>; the standard
  library's parser itself is outside the source.\<close>

record flags =
  flag_upgrade_extensions :: string
  flag_upgrade_skins :: string
  flag_upgrade_vendor :: bool
  flag_upgrade_world :: bool
  flag_l10n :: bool
  flag_lang :: string
  flag_servers :: string
  flag_ignore_time :: bool
  flag_force :: bool

definition parseFlags :: "flags \<Rightarrow> DeployConfig" where
  "parseFlags f =
     (let config = \<lparr>UpgradeExtensions = [], UpgradeSkins = [],
                    UpgradeVendor = flag_upgrade_vendor f,
                    UpgradeWorld = flag_upgrade_world f,
                    L10n = flag_l10n f, Lang = flag_lang f, Servers = [],
                    IgnoreTime = flag_ignore_time f, Force = flag_force f\<rparr>;
          config = (if flag_upgrade_extensions f \<noteq> []
                    then config\<lparr>UpgradeExtensions :=
                           strings_Split (flag_upgrade_extensions f) (CHR '','')\<rparr>
                    else config);
          config = (if flag_upgrade_skins f \<noteq> []
                    then config\<lparr>UpgradeSkins :=
                           strings_Split (flag_upgrade_skins f) (CHR '','')\<rparr>
                    else config);
          config = (if flag_servers f \<noteq> []
                    then (if flag_servers f = ''all''
                          then config\<lparr>Servers := ALLSERVERS\<rparr>
                          else config\<lparr>Servers :=
                                 strings_Split (flag_servers f) (CHR '','')\<rparr>)
                    else config)
      in config)"

text \<open>The file system as the inventory scan sees it: \<^verbatim>\<open>os.ReadDir\<close> gives an error
  or the entries (name, is a directory), and \<^verbatim>\<open>os.Stat\<close> succeeds or not.\<close>

record filesystem =
  ReadDir :: "string \<Rightarrow> string + (string \<times> bool) list"
  StatOk :: "string \<Rightarrow> bool"

fun scanEntries :: "filesystem \<Rightarrow> string \<Rightarrow> (string \<times> bool) list \<Rightarrow> string list" where
  "scanEntries fs path [] = []"
| "scanEntries fs path ((name, isDir) # entries) =
     (if \<not> isDir then scanEntries fs path entries
      else if StatOk fs (path @ ''/'' @ name @ ''/.git'')
           then name # scanEntries fs path entries
           else scanEntries fs path entries)"

definition GetValidExtensions :: "filesystem \<Rightarrow> string + string list" where
  "GetValidExtensions fs =
     (case ReadDir fs EXTENSIONPATH of
        Inl err \<Rightarrow> Inl err
      | Inr entries \<Rightarrow> Inr (scanEntries fs EXTENSIONPATH entries))"

definition GetValidSkins :: "filesystem \<Rightarrow> string + string list" where
  "GetValidSkins fs =
     (case ReadDir fs SKINPATH of
        Inl err \<Rightarrow> Inl err
      | Inr entries \<Rightarrow> Inr (scanEntries fs SKINPATH entries))"

text \<open>\<^verbatim>\<open>RunDeploy\<close> from the host name it obtained up to the call of
  \<^verbatim>\<open>validateConfig\<close>: the short host name, the flags, the expansion of
  \<^verbatim>\<open>--upgrade-world\<close>, then the inventory. \<open>Inl\<close> is the error of a failed
  directory read, which \<^verbatim>\<open>log.Fatal\<close> ends the process with.\<close>

definition resolveRequest ::
  "string \<Rightarrow> filesystem \<Rightarrow> flags \<Rightarrow> globals \<Rightarrow> string + globals \<times> DeployConfig" where
  "resolveRequest hname fs f g =
     (let g = g\<lparr>HOSTNAME := hd (strings_Split hname (CHR ''.''))\<rparr>;
          config = parseFlags f;
          config = (if UpgradeWorld config
                    then config\<lparr>UpgradeExtensions := VALIDEXTENSIONS g,
                                UpgradeSkins := VALIDSKINS g,
                                UpgradeVendor := True,
                                L10n := True,
                                IgnoreTime := True\<rparr>
                    else config)
      in case GetValidExtensions fs of
           Inl err \<Rightarrow> Inl err
         | Inr exts \<Rightarrow>
        (let g = g\<lparr>VALIDEXTENSIONS := exts\<rparr>
         in case GetValidSkins fs of
              Inl err \<Rightarrow> Inl err
            | Inr skins \<Rightarrow> Inr (g\<lparr>VALIDSKINS := skins\<rparr>, config)))"

text \<open>\<^verbatim>\<open>%v\<close> of a slice of strings: the elements between brackets, separated by
  spaces.\<close>

fun joinSpace :: "string list \<Rightarrow> string" where
  "joinSpace [] = []"
| "joinSpace [x] = x"
| "joinSpace (x # y # ys) = x @ '' '' @ joinSpace (y # ys)"

definition fmt_v :: "string list \<Rightarrow> string" where
  "fmt_v xs = ''['' @ joinSpace xs @ '']''"

text \<open>The exit status of the process and the final state. \<^verbatim>\<open>log.Fatal\<close> and
  \<^verbatim>\<open>os.Exit(1)\<close> both end the process with status 1.\<close>

definition RunDeploy ::
  "'w executor \<Rightarrow> string + string \<Rightarrow> filesystem \<Rightarrow> flags \<Rightarrow> globals \<Rightarrow> 'w sys
   \<Rightarrow> nat \<times> 'w sys" where
  "RunDeploy ex os_Hostname fs f g s =
     (case os_Hostname of
        Inl err \<Rightarrow> (1, emit (Stdout (''Could not determine hostname... '' @ err)) s)
      | Inr hname \<Rightarrow>
     (case resolveRequest hname fs f g of
        Inl err \<Rightarrow> (1, emit (Stderr err) s)
      | Inr (g', config) \<Rightarrow>
     (case validateConfig g' config of
        Some err \<Rightarrow> (1, emit (Stderr err) s)
      | None \<Rightarrow>
     (case executeDeploy ex g' config
             (emit (Stdout (''Deploying to servers: '' @ fmt_v (Servers config))) s) of
        (Some err, s') \<Rightarrow> (1, emit (Stderr err) s')
      | (None, s') \<Rightarrow> (0, emit (Stdout ''Deploy completed successfully'') s')))))"

subsection \<open>The mandated sequence, and reading a trace\<close>

text \<open>The order of steps the specification fixes: the local sequence when the local
  host is among the servers (dependency update if requested, the extensions and the
  skins as declared, the local mirror sync, the localization rebuild if requested),
  then one remote mirror sync for every listed server other than the local host.\<close>

definition localPlan :: "DeployConfig \<Rightarrow> step list" where
  "localPlan config =
     (if UpgradeVendor config then [UpdateVendor] else [])
     @ map UpdateExtension (UpgradeExtensions config)
     @ map UpdateSkin (UpgradeSkins config)
     @ [RsyncToLocalProduction]
     @ (if L10n config then [RebuildL10n] else [])"

definition remotePlan :: "string \<Rightarrow> DeployConfig \<Rightarrow> step list" where
  "remotePlan hostname config =
     map RsyncToRemoteServer (filter (\<lambda>server. server \<noteq> hostname) (Servers config))"

definition mandatedSequence :: "globals \<Rightarrow> DeployConfig \<Rightarrow> step list" where
  "mandatedSequence g config =
     (if HOSTNAME g \<in> set (Servers config) then localPlan config else [])
     @ remotePlan (HOSTNAME g) config"

fun isLocal :: "step \<Rightarrow> bool" where
  "isLocal (RsyncToRemoteServer server) = False"
| "isLocal st = True"

text \<open>The steps entered, and the steps returned from with their errors, in order.\<close>

fun calls :: "event list \<Rightarrow> step list" where
  "calls [] = []"
| "calls (Enter st # evs) = st # calls evs"
| "calls (e # evs) = calls evs"

fun leaves :: "event list \<Rightarrow> (step \<times> string option) list" where
  "leaves [] = []"
| "leaves (Leave st r # evs) = (st, r) # leaves evs"
| "leaves (e # evs) = leaves evs"

fun execs :: "event list \<Rightarrow> command list" where
  "execs [] = []"
| "execs (Exec c # evs) = c # execs evs"
| "execs (e # evs) = execs evs"

text \<open>The events a run added to the trace it started from.\<close>

definition newEvents :: "'w sys \<Rightarrow> 'w sys \<Rightarrow> event list" where
  "newEvents s s' = drop (length (trace s)) (trace s')"

text \<open>An event of a local step (its entry or return) and an event of a remote one;
  a process that is a remote mirror sync of the request.\<close>

fun localMark :: "event \<Rightarrow> bool" where
  "localMark (Enter st) = isLocal st"
| "localMark (Leave st r) = isLocal st"
| "localMark e = False"

fun remoteMark :: "event \<Rightarrow> bool" where
  "remoteMark (Enter st) = (\<not> isLocal st)"
| "remoteMark (Leave st r) = (\<not> isLocal st)"
| "remoteMark e = False"

text \<open>One call of a step function from \<^verbatim>\<open>executeDeploy\<close>, with the line printed
  before it, and a list of such calls under the failure policy: the six call sites of
  \<^verbatim>\<open>executeDeploy\<close> seen as one loop.\<close>

fun runStep :: "'w executor \<Rightarrow> DeployConfig \<Rightarrow> step \<Rightarrow> 'w sys \<Rightarrow> string option \<times> 'w sys" where
  "runStep ex config UpdateVendor s =
     updateVendor ex (emit (Stdout ''Updating vendor...'') s)"
| "runStep ex config (UpdateExtension ext) s =
     updateExtension ex ext (emit (Stdout (''Updating extension: '' @ ext)) s)"
| "runStep ex config (UpdateSkin skin) s =
     updateSkin ex skin (emit (Stdout (''Updating skin: '' @ skin)) s)"
| "runStep ex config RsyncToLocalProduction s = rsyncToLocalProduction ex config s"
| "runStep ex config RebuildL10n s =
     rebuildL10n ex (Lang config) (emit (Stdout ''Rebuilding localization cache...'') s)"
| "runStep ex config (RsyncToRemoteServer server) s =
     rsyncToRemoteServer ex server config
       (emit (Stdout (''Syncing to remote server: '' @ server)) s)"

fun runSteps ::
  "'w executor \<Rightarrow> DeployConfig \<Rightarrow> step list \<Rightarrow> int list \<Rightarrow> 'w sys \<Rightarrow> 'w ctl" where
  "runSteps ex config [] exitCodes s = Continue exitCodes s"
| "runSteps ex config (st # rest) exitCodes s =
     (case onError (Force config) exitCodes (runStep ex config st s) of
        Return err s' \<Rightarrow> Return err s'
      | Continue exitCodes' s' \<Rightarrow> runSteps ex config rest exitCodes' s')"

text \<open>The events of one step that returned \<open>r\<close>: at most one printed line, the
  entry, the processes run, the return.\<close>

definition stepEvents :: "DeployConfig \<Rightarrow> step \<Rightarrow> string option \<Rightarrow> event list \<Rightarrow> bool" where
  "stepEvents config st r evs \<longleftrightarrow>
     (\<exists>pre cs. evs = pre @ [Enter st] @ map Exec cs @ [Leave st r]
        \<and> (\<forall>e \<in> set pre. \<exists>l. e = Stdout l)
        \<and> (\<forall>server. st = RsyncToRemoteServer server \<longrightarrow>
              cs = [remoteRsyncCommand server config]))"

fun runEvents :: "DeployConfig \<Rightarrow> (step \<times> string option) list \<Rightarrow> event list \<Rightarrow> bool" where
  "runEvents config [] evs = (evs = [])"
| "runEvents config ((st, r) # outs) evs =
     (\<exists>e1 e2. evs = e1 @ e2 \<and> stepEvents config st r e1 \<and> runEvents config outs e2)"

subsection \<open>Concrete requests and executors\<close>

definition exGlobals :: globals where
  "exGlobals = \<lparr>HOSTNAME = ''mw1'', VALIDEXTENSIONS = [''Foo'', ''Bar''],
                 VALIDSKINS = [''Vector'']\<rparr>"

definition exConfig :: DeployConfig where
  "exConfig = \<lparr>UpgradeExtensions = [''Foo''], UpgradeSkins = [''Vector''],
                UpgradeVendor = False, UpgradeWorld = False, L10n = False, Lang = [],
                Servers = [''mw1'', ''mw2''], IgnoreTime = False, Force = False\<rparr>"

text \<open>An executor under which every process succeeds, and one under which every
  \<^verbatim>\<open>rsync\<close> fails; the world counts the processes run.\<close>

definition okExecutor :: "nat executor" where
  "okExecutor c w = (None, Suc w)"

definition failRsync :: "nat executor" where
  "failRsync c w = (if cmd_name c = ''rsync'' then Some ''exit status 23'' else None, Suc w)"

definition exStart :: "nat sys" where
  "exStart = \<lparr>world = 0, trace = []\<rparr>"

text \<open>A staging tree with one extension and one skin under version control, and the
  flags of \<^verbatim>\<open>deploy --upgrade-world --servers mw1\<close>.\<close>

definition exFs :: filesystem where
  "exFs = \<lparr>ReadDir = (\<lambda>path.
              if path = EXTENSIONPATH then Inr [(''Foo'', True), (''README'', False)]
              else if path = SKINPATH then Inr [(''Vector'', True)]
              else Inl ''no such file or directory''),
           StatOk = (\<lambda>path. True)\<rparr>"

definition noFlags :: flags where
  "noFlags = \<lparr>flag_upgrade_extensions = [], flag_upgrade_skins = [],
               flag_upgrade_vendor = False, flag_upgrade_world = False,
               flag_l10n = False, flag_lang = [], flag_servers = [],
               flag_ignore_time = False, flag_force = False\<rparr>"

definition worldFlags :: flags where
  "worldFlags = noFlags\<lparr>flag_upgrade_world := True, flag_servers := ''mw1''\<rparr>"

subsection \<open>How \<^verbatim>\<open>rsync\<close> reads its arguments\<close>

text \<open>From the manual of \<^verbatim>\<open>rsync\<close>, not from the source: an argument that begins
  with \<^verbatim>\<open>-\<close> is an option, \<^verbatim>\<open>-e\<close> takes the argument after it as the remote
  shell command, and the arguments left over are the operands of the transfer, the
  last one the destination and the others sources.\<close>

fun rsyncOperands :: "string list \<Rightarrow> string list" where
  "rsyncOperands [] = []"
| "rsyncOperands [a] = (if take 1 a = ''-'' then [] else [a])"
| "rsyncOperands (a # b # rest) =
     (if a = ''-e'' then rsyncOperands rest
      else if take 1 a = ''-'' then rsyncOperands (b # rest)
      else a # rsyncOperands (b # rest))"

fun rsyncRemoteShell :: "string list \<Rightarrow> string option" where
  "rsyncRemoteShell [] = None"
| "rsyncRemoteShell [a] = None"
| "rsyncRemoteShell (a # b # rest) =
     (if a = ''-e'' then Some b else rsyncRemoteShell (b # rest))"

definition execOnly :: "'w sys \<Rightarrow> 'w sys \<Rightarrow> bool" where
  "execOnly s s' \<longleftrightarrow> (\<exists>cs. trace s' = trace s @ map Exec cs)"

definition ctlState :: "'w ctl \<Rightarrow> 'w sys" where
  "ctlState c = (case c of Return err s \<Rightarrow> s | Continue exitCodes s \<Rightarrow> s)"

definition outsOk ::
  "bool \<Rightarrow> step list \<Rightarrow> int list \<Rightarrow> (step \<times> string option) list \<Rightarrow> 'w ctl \<Rightarrow> bool" where
  "outsOk force plan exitCodes outs res =
     (case res of
        Continue exitCodes' s' \<Rightarrow>
          map fst outs = plan
          \<and> exitCodes' = exitCodes @ map (\<lambda>out. 1) (filter (\<lambda>out. snd out \<noteq> None) outs)
          \<and> (\<not> force \<longrightarrow> (\<forall>out \<in> set outs. snd out = None))
      | Return err s' \<Rightarrow>
          \<not> force
          \<and> (\<exists>n < length plan.
                outs = map (\<lambda>st. (st, None)) (take n plan) @ [(plan ! n, Some err)]))"

subsection \<open>The local mirror sync as a list of processes\<close>

text \<open>The mirrors \<^verbatim>\<open>rsyncToLocalProduction\<close> has in scope, in its order: vendor if
  requested, then one per listed extension, then one per listed skin.\<close>

definition localRsyncCommands :: "DeployConfig \<Rightarrow> command list" where
  "localRsyncCommands config =
     (if UpgradeVendor config
      then [rsync_command (localRsyncParams config) (STAGINGPATH @ ''/vendor/'')
              (PRODUCTIONPATH @ ''/vendor/'')]
      else [])
     @ map (\<lambda>ext. rsync_command (localRsyncParams config)
                    (fst (extensionPaths ext)) (snd (extensionPaths ext)))
         (UpgradeExtensions config)
     @ map (\<lambda>skin. rsync_command (localRsyncParams config)
                     (fst (skinPaths skin)) (snd (skinPaths skin)))
         (UpgradeSkins config)"

text \<open>Running processes in order until one fails: the error if any, the processes
  that were run, and the world afterwards.\<close>

fun untilFailure ::
  "'w executor \<Rightarrow> command list \<Rightarrow> 'w \<Rightarrow> string option \<times> command list \<times> 'w" where
  "untilFailure ex [] w = (None, [], w)"
| "untilFailure ex (c # cs) w =
     (case ex c w of
        (Some err, w') \<Rightarrow> (Some err, [c], w')
      | (None, w') \<Rightarrow>
          (case untilFailure ex cs w' of (r, tried, w'') \<Rightarrow> (r, c # tried, w'')))"

definition localPart :: "globals \<Rightarrow> DeployConfig \<Rightarrow> step list" where
  "localPart g config =
     (if HOSTNAME g \<in> set (Servers config) then localPlan config else [])"




section \<open>Properties\<close>

subsection \<open>Validation\<close>

lemma contains_set: "contains xs x \<longleftrightarrow> x \<in> set xs"
  by (induction xs) auto

lemma validateExtensions_find:
  "validateExtensions valid exts =
     (case find (\<lambda>ext. ext \<notin> set valid) exts of
        None \<Rightarrow> None | Some ext \<Rightarrow> Some (''invalid extension: '' @ ext))"
  by (induction exts) (auto simp: contains_set)

lemma validateSkins_find:
  "validateSkins valid skins =
     (case find (\<lambda>skin. skin \<notin> set valid) skins of
        None \<Rightarrow> None | Some skin \<Rightarrow> Some (''invalid skin: '' @ skin))"
  by (induction skins) (auto simp: contains_set)

lemma find_None_subset: "find (\<lambda>x. x \<notin> A) xs = None \<longleftrightarrow> set xs \<subseteq> A"
  by (induction xs) auto

lemma validateConfig_find:
  "validateConfig g config =
     (case find (\<lambda>ext. ext \<notin> set (VALIDEXTENSIONS g)) (UpgradeExtensions config) of
        Some ext \<Rightarrow> Some (''invalid extension: '' @ ext)
      | None \<Rightarrow>
     (case find (\<lambda>skin. skin \<notin> set (VALIDSKINS g)) (UpgradeSkins config) of
        Some skin \<Rightarrow> Some (''invalid skin: '' @ skin)
      | None \<Rightarrow>
     if Servers config = [] then Some ''at least one server required''
     else if Lang config \<noteq> [] \<and> \<not> L10n config then Some ''--lang requires --l10n flag''
     else None))"
  by (simp add: validateConfig_def validateExtensions_find validateSkins_find
           split: option.splits)

lemma validateConfig_None:
  "validateConfig g config = None \<longleftrightarrow>
     set (UpgradeExtensions config) \<subseteq> set (VALIDEXTENSIONS g)
     \<and> set (UpgradeSkins config) \<subseteq> set (VALIDSKINS g)
     \<and> Servers config \<noteq> []
     \<and> (Lang config = [] \<or> L10n config)"
  unfolding validateConfig_find
  by (auto simp: find_None_subset[symmetric] split: option.splits)

text \<open>
  Claim C7. Validation is a function of the inventory and the request alone: it returns
  an error or nothing, and neither reads nor changes anything else. Its result is the
  first violation in the scan order: the first extension of the request that is not in
  the inventory, else the first such skin, else the empty server list, else a language
  filter without localization; it is never an aggregate. It succeeds exactly when no
  rule is violated.
\<close>

theorem validateConfig_first_violation:
  "validateConfig g config =
     (case find (\<lambda>ext. ext \<notin> set (VALIDEXTENSIONS g)) (UpgradeExtensions config) of
        Some ext \<Rightarrow> Some (''invalid extension: '' @ ext)
      | None \<Rightarrow>
     (case find (\<lambda>skin. skin \<notin> set (VALIDSKINS g)) (UpgradeSkins config) of
        Some skin \<Rightarrow> Some (''invalid skin: '' @ skin)
      | None \<Rightarrow>
     if Servers config = [] then Some ''at least one server required''
     else if Lang config \<noteq> [] \<and> \<not> L10n config then Some ''--lang requires --l10n flag''
     else None))
   \<and> (validateConfig g config = None \<longleftrightarrow>
        set (UpgradeExtensions config) \<subseteq> set (VALIDEXTENSIONS g)
        \<and> set (UpgradeSkins config) \<subseteq> set (VALIDSKINS g)
        \<and> Servers config \<noteq> []
        \<and> (Lang config = [] \<or> L10n config))"
  using validateConfig_find [of g config] validateConfig_None [of g config] by blast

theorem validateConfig_first_violation_witness:
  "validateConfig exGlobals
     (exConfig\<lparr>UpgradeSkins := [''Vector'', ''Nope'', ''Nada''], Servers := []\<rparr>)
     = Some ''invalid skin: Nope''
   \<and> validateConfig exGlobals exConfig = None"
  using validateConfig_first_violation [of exGlobals exConfig]
    validateConfig_first_violation
      [of exGlobals "exConfig\<lparr>UpgradeSkins := [''Vector'', ''Nope'', ''Nada''], Servers := []\<rparr>"]
  by (simp add: exGlobals_def exConfig_def)

text \<open>
  Claim C8. A request whose resolved server list is empty never gets past validation:
  the process ends with status 1 having logged the validation error and nothing else,
  so no step is entered and no process is run. The error is that of the first
  extension of the request that is not in the inventory, else that of the first such
  skin, else the no-servers error; so it is the no-servers error when every extension
  and skin of the request is in the inventory, which is the case after
  \<^verbatim>\<open>--upgrade-world\<close> in a fresh process.
\<close>

theorem empty_servers_rejected:
  assumes "resolveRequest hname fs f g = Inr (g', config)"
    and "Servers config = []"
  shows "\<exists>err. validateConfig g' config = Some err
      \<and> RunDeploy ex (Inr hname) fs f g s = (1, emit (Stderr err) s)
      \<and> newEvents s (emit (Stderr err) s) = [Stderr err]
      \<and> err =
          (case find (\<lambda>ext. ext \<notin> set (VALIDEXTENSIONS g')) (UpgradeExtensions config) of
             Some ext \<Rightarrow> ''invalid extension: '' @ ext
           | None \<Rightarrow>
          (case find (\<lambda>skin. skin \<notin> set (VALIDSKINS g')) (UpgradeSkins config) of
             Some skin \<Rightarrow> ''invalid skin: '' @ skin
           | None \<Rightarrow> ''at least one server required''))
      \<and> (set (UpgradeExtensions config) \<subseteq> set (VALIDEXTENSIONS g')
           \<and> set (UpgradeSkins config) \<subseteq> set (VALIDSKINS g')
         \<longrightarrow> err = ''at least one server required'')
      \<and> (flag_upgrade_world f \<and> g = initial_globals
         \<longrightarrow> err = ''at least one server required'')"
proof -
  let ?err = "case find (\<lambda>ext. ext \<notin> set (VALIDEXTENSIONS g')) (UpgradeExtensions config) of
             Some ext \<Rightarrow> ''invalid extension: '' @ ext
           | None \<Rightarrow>
          (case find (\<lambda>skin. skin \<notin> set (VALIDSKINS g')) (UpgradeSkins config) of
             Some skin \<Rightarrow> ''invalid skin: '' @ skin
           | None \<Rightarrow> ''at least one server required'')"
  have err: "validateConfig g' config = Some ?err"
    using assms(2) by (simp add: validateConfig_find split: option.splits)
  have run: "RunDeploy ex (Inr hname) fs f g s = (1, emit (Stderr ?err) s)"
    using assms(1) err by (simp add: RunDeploy_def)
  have new: "newEvents s (emit (Stderr ?err) s) = [Stderr ?err]"
    by (simp add: newEvents_def emit_def)
  have known: "?err = ''at least one server required''"
    if "set (UpgradeExtensions config) \<subseteq> set (VALIDEXTENSIONS g')
        \<and> set (UpgradeSkins config) \<subseteq> set (VALIDSKINS g')"
    using that by (simp add: find_None_subset [THEN iffD2])
  have world: "UpgradeExtensions config = [] \<and> UpgradeSkins config = []"
    if "flag_upgrade_world f \<and> g = initial_globals"
    using that assms(1)
    by (auto simp: resolveRequest_def parseFlags_def initial_globals_def Let_def
             split: sum.splits if_splits)
  have fresh: "?err = ''at least one server required''"
    if "flag_upgrade_world f \<and> g = initial_globals"
    using world [OF that] by simp
  from err run new known fresh show ?thesis by blast
qed

theorem empty_servers_rejected_witness:
  "RunDeploy okExecutor (Inr ''mw1'') exFs (worldFlags\<lparr>flag_servers := []\<rparr>)
     initial_globals exStart
   = (1, emit (Stderr ''at least one server required'') exStart)
   \<and> RunDeploy okExecutor (Inr ''mw1'') exFs
        (noFlags\<lparr>flag_upgrade_extensions := ''Foo,Nope,Nada''\<rparr>) initial_globals exStart
   = (1, emit (Stderr ''invalid extension: Nope'') exStart)"
proof -
  obtain g' config where res:
    "resolveRequest ''mw1'' exFs (worldFlags\<lparr>flag_servers := []\<rparr>) initial_globals
       = Inr (g', config)"
    and emp: "Servers config = []"
    by (simp add: resolveRequest_def parseFlags_def worldFlags_def noFlags_def exFs_def
          GetValidExtensions_def GetValidSkins_def EXTENSIONPATH_def SKINPATH_def Let_def)
  have 1: "RunDeploy okExecutor (Inr ''mw1'') exFs (worldFlags\<lparr>flag_servers := []\<rparr>)
     initial_globals exStart
   = (1, emit (Stderr ''at least one server required'') exStart)"
    using empty_servers_rejected [OF res emp, of okExecutor exStart]
    by (auto simp: worldFlags_def noFlags_def)
  let ?g = "\<lparr>HOSTNAME = ''mw1'', VALIDEXTENSIONS = [''Foo''], VALIDSKINS = [''Vector'']\<rparr>"
  let ?c = "\<lparr>UpgradeExtensions = [''Foo'', ''Nope'', ''Nada''], UpgradeSkins = [],
            UpgradeVendor = False, UpgradeWorld = False, L10n = False, Lang = [],
            Servers = [], IgnoreTime = False, Force = False\<rparr>"
  have res2: "resolveRequest ''mw1'' exFs (noFlags\<lparr>flag_upgrade_extensions := ''Foo,Nope,Nada''\<rparr>)
       initial_globals = Inr (?g, ?c)"
    by (simp add: resolveRequest_def parseFlags_def noFlags_def exFs_def initial_globals_def
          GetValidExtensions_def GetValidSkins_def EXTENSIONPATH_def SKINPATH_def Let_def)
  have emp2: "Servers ?c = []" by simp
  have 2: "RunDeploy okExecutor (Inr ''mw1'') exFs
        (noFlags\<lparr>flag_upgrade_extensions := ''Foo,Nope,Nada''\<rparr>) initial_globals exStart
   = (1, emit (Stderr ''invalid extension: Nope'') exStart)"
    using empty_servers_rejected [OF res2 emp2, of okExecutor exStart]
    by auto
  from 1 2 show ?thesis by simp
qed

text \<open>The claim as it is written fails: with an unknown extension and no servers, the
  error is the unknown extension's.\<close>

theorem empty_servers_other_error:
  "Servers (exConfig\<lparr>UpgradeExtensions := [''Nope''], Servers := []\<rparr>) = []
   \<and> validateConfig exGlobals (exConfig\<lparr>UpgradeExtensions := [''Nope''], Servers := []\<rparr>)
       = Some ''invalid extension: Nope''
   \<and> validateConfig exGlobals (exConfig\<lparr>UpgradeExtensions := [''Nope''], Servers := []\<rparr>)
       \<noteq> Some ''at least one server required''"
  by (simp add: validateConfig_def exGlobals_def exConfig_def)

subsection \<open>The expansion of \<^verbatim>\<open>--upgrade-world\<close>\<close>

text \<open>
  Claim C1. In a fresh process, \<^verbatim>\<open>deploy --upgrade-world --servers mw1\<close> on host
  \<^verbatim>\<open>mw1\<close>, with extension \<^verbatim>\<open>Foo\<close> and skin \<^verbatim>\<open>Vector\<close> installed: the request
  that validation sees has no extensions and no skins, although the inventory taken for
  the run holds both, because the expansion reads the inventory variables before they
  are filled. Vendor update, localization and the time-stamp bypass are on.
\<close>

theorem upgrade_world_reads_stale_inventory:
  "resolveRequest ''mw1'' exFs worldFlags initial_globals =
     Inr (\<lparr>HOSTNAME = ''mw1'', VALIDEXTENSIONS = [''Foo''], VALIDSKINS = [''Vector'']\<rparr>,
          \<lparr>UpgradeExtensions = [], UpgradeSkins = [], UpgradeVendor = True,
           UpgradeWorld = True, L10n = True, Lang = [], Servers = [''mw1''],
           IgnoreTime = True, Force = False\<rparr>)"
  by (simp add: resolveRequest_def parseFlags_def worldFlags_def noFlags_def exFs_def
        initial_globals_def GetValidExtensions_def GetValidSkins_def EXTENSIONPATH_def
        SKINPATH_def Let_def)

subsection \<open>The remote mirror sync\<close>

lemma remoteRsyncCommand_args:
  "cmd_args (remoteRsyncCommand server config) =
     [if IgnoreTime config then ''--inplace'' else ''--update'',
      ''-e'', ''ssh'', ''-i'', ''/prod/mediawiki-staging/deploykey'',
      ''-r'', ''--delete'', ''--exclude=.*'',
      ''/prod/mediawiki/'', ''mediawikiuser@'' @ server @ '':/prod/mediawiki/'']"
  by (simp add: remoteRsyncCommand_def rsync_command_def remoteRsyncParams_def
        PRODUCTIONPATH_def DEPLOYUSER_def)

text \<open>
  Claim C2. The remote mirror sync of any server under any request runs \<^verbatim>\<open>rsync\<close>
  with the arguments below: the parameter string is split at every space, so the
  remote shell command is \<^verbatim>\<open>ssh\<close> alone, \<^verbatim>\<open>-i\<close> is an option of
  \<^verbatim>\<open>rsync\<close>, and the key path is an operand of the transfer. There are three
  operands, not two, and the remote shell is not given the key.
\<close>

theorem remote_sync_arguments:
  "cmd_name (remoteRsyncCommand server config) = ''rsync''
   \<and> cmd_args (remoteRsyncCommand server config) =
     [if IgnoreTime config then ''--inplace'' else ''--update'',
      ''-e'', ''ssh'', ''-i'', ''/prod/mediawiki-staging/deploykey'',
      ''-r'', ''--delete'', ''--exclude=.*'',
      ''/prod/mediawiki/'', ''mediawikiuser@'' @ server @ '':/prod/mediawiki/'']
   \<and> rsyncOperands (cmd_args (remoteRsyncCommand server config)) =
     [''/prod/mediawiki-staging/deploykey'', ''/prod/mediawiki/'',
      ''mediawikiuser@'' @ server @ '':/prod/mediawiki/'']
   \<and> rsyncRemoteShell (cmd_args (remoteRsyncCommand server config)) = Some ''ssh''
   \<and> execs (newEvents s (snd (rsyncToRemoteServer ex server config s)))
       = [remoteRsyncCommand server config]"
proof -
  have run: "execs (newEvents s (snd (rsyncToRemoteServer ex server config s)))
       = [remoteRsyncCommand server config]"
    by (simp add: rsyncToRemoteServer_def traced_def runRsync_def cmd_Run_def emit_def
          newEvents_def remoteRsyncCommand_def split: prod.splits)
  have name: "cmd_name (remoteRsyncCommand server config) = ''rsync''"
    by (simp add: remoteRsyncCommand_def rsync_command_def)
  show ?thesis
    unfolding remoteRsyncCommand_args using run name by simp
qed

lemma execOnly_refl: "execOnly s s"
  by (simp add: execOnly_def)

lemma execOnly_trans: "execOnly s s1 \<Longrightarrow> execOnly s1 s2 \<Longrightarrow> execOnly s s2"
  unfolding execOnly_def
proof -
  assume "\<exists>cs. trace s1 = trace s @ map Exec cs" "\<exists>cs. trace s2 = trace s1 @ map Exec cs"
  then obtain c1 c2 where "trace s1 = trace s @ map Exec c1" "trace s2 = trace s1 @ map Exec c2"
    by blast
  then have "trace s2 = trace s @ map Exec (c1 @ c2)" by simp
  then show "\<exists>cs. trace s2 = trace s @ map Exec cs" by blast
qed

lemma cmd_Run_execOnly: "cmd_Run ex c s = (r, s') \<Longrightarrow> execOnly s s'"
proof -
  assume "cmd_Run ex c s = (r, s')"
  then have "trace s' = trace s @ map Exec [c]"
    by (auto simp: cmd_Run_def split: prod.splits)
  then show ?thesis unfolding execOnly_def by blast
qed

lemma runCommand_execOnly: "runCommand ex name args s = (r, s') \<Longrightarrow> execOnly s s'"
  unfolding runCommand_def by (rule cmd_Run_execOnly)

lemma runRsync_execOnly: "runRsync ex params src dst s = (r, s') \<Longrightarrow> execOnly s s'"
  unfolding runRsync_def by (rule cmd_Run_execOnly)

lemma rsyncEach_execOnly: "rsyncEach ex params paths names s = (r, s') \<Longrightarrow> execOnly s s'"
proof (induction names arbitrary: s)
  case Nil
  then show ?case by (simp add: execOnly_refl)
next
  case (Cons name rest)
  obtain r1 s1 where r1: "runRsync ex params (fst (paths name)) (snd (paths name)) s = (r1, s1)"
    by (cases "runRsync ex params (fst (paths name)) (snd (paths name)) s")
  have e1: "execOnly s s1" using r1 by (rule runRsync_execOnly)
  show ?case
  proof (cases r1)
    case None
    with Cons.prems r1 have "rsyncEach ex params paths rest s1 = (r, s')" by simp
    then have "execOnly s1 s'" by (rule Cons.IH)
    with e1 show ?thesis by (rule execOnly_trans)
  next
    case (Some err)
    with Cons.prems r1 have "s' = s1" by simp
    with e1 show ?thesis by simp
  qed
qed

lemma traced_events:
  assumes body: "\<And>s0 r s1. body s0 = (r, s1) \<Longrightarrow> execOnly s0 s1"
    and run: "traced st body s = (r, s')"
  shows "\<exists>cs. trace s' = trace s @ [Enter st] @ map Exec cs @ [Leave st r]"
proof -
  obtain s1 where b: "body (emit (Enter st) s) = (r, s1)" and s': "s' = emit (Leave st r) s1"
    using run by (auto simp: traced_def split: prod.splits)
  from body [OF b] obtain cs where "trace s1 = trace (emit (Enter st) s) @ map Exec cs"
    unfolding execOnly_def by blast
  then have "trace s' = trace s @ [Enter st] @ map Exec cs @ [Leave st r]"
    using s' by (simp add: emit_def)
  then show ?thesis by blast
qed

lemma updateVendor_events:
  "updateVendor ex s = (r, s') \<Longrightarrow>
     \<exists>cs. trace s' = trace s @ [Enter UpdateVendor] @ map Exec cs @ [Leave UpdateVendor r]"
  unfolding updateVendor_def
  by (erule traced_events [rotated])
     (auto simp: Let_def split: prod.splits option.splits
           dest!: runCommand_execOnly cmd_Run_execOnly intro: execOnly_trans)

lemma updateExtension_events:
  "updateExtension ex ext s = (r, s') \<Longrightarrow>
     \<exists>cs. trace s' = trace s @ [Enter (UpdateExtension ext)] @ map Exec cs
                      @ [Leave (UpdateExtension ext) r]"
  unfolding updateExtension_def
  by (erule traced_events [rotated])
     (auto simp: Let_def split: prod.splits option.splits dest!: runCommand_execOnly)

lemma updateSkin_events:
  "updateSkin ex skin s = (r, s') \<Longrightarrow>
     \<exists>cs. trace s' = trace s @ [Enter (UpdateSkin skin)] @ map Exec cs
                      @ [Leave (UpdateSkin skin) r]"
  unfolding updateSkin_def
  by (erule traced_events [rotated])
     (auto simp: Let_def split: prod.splits option.splits dest!: runCommand_execOnly)

lemma rsyncToLocalProduction_events:
  "rsyncToLocalProduction ex config s = (r, s') \<Longrightarrow>
     \<exists>cs. trace s' = trace s @ [Enter RsyncToLocalProduction] @ map Exec cs
                      @ [Leave RsyncToLocalProduction r]"
  unfolding rsyncToLocalProduction_def
  by (erule traced_events [rotated])
     (auto simp: Let_def execOnly_refl split: prod.splits option.splits if_splits
           dest!: runRsync_execOnly rsyncEach_execOnly intro: execOnly_trans)

lemma rebuildL10n_events:
  "rebuildL10n ex lang s = (r, s') \<Longrightarrow>
     \<exists>cs. trace s' = trace s @ [Enter RebuildL10n] @ map Exec cs @ [Leave RebuildL10n r]"
  unfolding rebuildL10n_def
  by (erule traced_events [rotated])
     (auto simp: Let_def split: prod.splits option.splits if_splits
           dest!: cmd_Run_execOnly intro: execOnly_trans)

lemma rsyncToRemoteServer_events:
  "rsyncToRemoteServer ex server config s = (r, s') \<Longrightarrow>
     trace s' = trace s @ [Enter (RsyncToRemoteServer server)]
                @ map Exec [remoteRsyncCommand server config]
                @ [Leave (RsyncToRemoteServer server) r]"
  by (auto simp: rsyncToRemoteServer_def traced_def runRsync_def cmd_Run_def emit_def
        remoteRsyncCommand_def split: prod.splits)

lemma stepEvents_local:
  assumes "trace s' = trace s @ pre @ [Enter st] @ map Exec cs @ [Leave st r]"
    and "\<forall>e \<in> set pre. \<exists>l. e = Stdout l" and "isLocal st"
  shows "\<exists>evs. trace s' = trace s @ evs \<and> stepEvents config st r evs"
proof -
  have "stepEvents config st r (pre @ [Enter st] @ map Exec cs @ [Leave st r])"
    unfolding stepEvents_def using assms(2,3) by (intro exI conjI) auto
  with assms(1) show ?thesis by blast
qed

lemma runStep_stepEvents:
  assumes "runStep ex config st s = (r, s')"
  shows "\<exists>evs. trace s' = trace s @ evs \<and> stepEvents config st r evs"
proof (cases st)
  case UpdateVendor
  with assms have run: "updateVendor ex (emit (Stdout ''Updating vendor...'') s) = (r, s')"
    by simp
  from updateVendor_events [OF run]
  obtain cs where tr: "trace s' = trace s @ [Stdout ''Updating vendor...''] @ [Enter st]
      @ map Exec cs @ [Leave st r]"
    using UpdateVendor by (auto simp: emit_def)
  show ?thesis using stepEvents_local [OF tr] UpdateVendor by auto
next
  case (UpdateExtension ext)
  with assms have run:
    "updateExtension ex ext (emit (Stdout (''Updating extension: '' @ ext)) s) = (r, s')"
    by simp
  from updateExtension_events [OF run]
  obtain cs where tr: "trace s' = trace s @ [Stdout (''Updating extension: '' @ ext)] @ [Enter st]
      @ map Exec cs @ [Leave st r]"
    using UpdateExtension by (auto simp: emit_def)
  show ?thesis using stepEvents_local [OF tr] UpdateExtension by auto
next
  case (UpdateSkin skin)
  with assms have run:
    "updateSkin ex skin (emit (Stdout (''Updating skin: '' @ skin)) s) = (r, s')"
    by simp
  from updateSkin_events [OF run]
  obtain cs where tr: "trace s' = trace s @ [Stdout (''Updating skin: '' @ skin)] @ [Enter st]
      @ map Exec cs @ [Leave st r]"
    using UpdateSkin by (auto simp: emit_def)
  show ?thesis using stepEvents_local [OF tr] UpdateSkin by auto
next
  case RsyncToLocalProduction
  with assms have run: "rsyncToLocalProduction ex config s = (r, s')"
    by simp
  from rsyncToLocalProduction_events [OF run]
  obtain cs where tr: "trace s' = trace s @ [] @ [Enter st] @ map Exec cs @ [Leave st r]"
    using RsyncToLocalProduction by auto
  show ?thesis using stepEvents_local [OF tr] RsyncToLocalProduction by auto
next
  case RebuildL10n
  with assms have run:
    "rebuildL10n ex (Lang config) (emit (Stdout ''Rebuilding localization cache...'') s)
       = (r, s')"
    by simp
  from rebuildL10n_events [OF run]
  obtain cs where tr: "trace s' = trace s @ [Stdout ''Rebuilding localization cache...'']
      @ [Enter st] @ map Exec cs @ [Leave st r]"
    using RebuildL10n by (auto simp: emit_def)
  show ?thesis using stepEvents_local [OF tr] RebuildL10n by auto
next
  case (RsyncToRemoteServer server)
  with assms have run:
    "rsyncToRemoteServer ex server config
       (emit (Stdout (''Syncing to remote server: '' @ server)) s) = (r, s')"
    by simp
  from rsyncToRemoteServer_events [OF run]
  have tr: "trace s' = trace s @ [Stdout (''Syncing to remote server: '' @ server)]
      @ [Enter st] @ map Exec [remoteRsyncCommand server config] @ [Leave st r]"
    using RsyncToRemoteServer by (auto simp: emit_def)
  have "stepEvents config st r ([Stdout (''Syncing to remote server: '' @ server)]
      @ [Enter st] @ map Exec [remoteRsyncCommand server config] @ [Leave st r])"
    unfolding stepEvents_def using RsyncToRemoteServer by (intro exI conjI) auto
  with tr show ?thesis by blast
qed

lemma runSteps_append:
  "runSteps ex config (xs @ ys) exitCodes s =
     (case runSteps ex config xs exitCodes s of
        Return err s' \<Rightarrow> Return err s'
      | Continue exitCodes' s' \<Rightarrow> runSteps ex config ys exitCodes' s')"
  by (induction xs arbitrary: exitCodes s) (auto split: ctl.splits)

lemma updateExtensionsLoop_runSteps:
  "updateExtensionsLoop ex config exts exitCodes s =
     runSteps ex config (map UpdateExtension exts) exitCodes s"
  by (induction exts arbitrary: exitCodes s) (auto split: ctl.splits)

lemma updateSkinsLoop_runSteps:
  "updateSkinsLoop ex config skins exitCodes s =
     runSteps ex config (map UpdateSkin skins) exitCodes s"
  by (induction skins arbitrary: exitCodes s) (auto split: ctl.splits)

lemma remoteLoop_runSteps:
  "remoteLoop ex hostname config servers exitCodes s =
     runSteps ex config
       (map RsyncToRemoteServer (filter (\<lambda>server. server \<noteq> hostname) servers)) exitCodes s"
  by (induction servers arbitrary: exitCodes s) (auto split: ctl.splits)

lemma localBlock_runSteps:
  "localBlock ex config exitCodes s = runSteps ex config (localPlan config) exitCodes s"
  by (simp add: localBlock_def localPlan_def runSteps_append updateExtensionsLoop_runSteps
        updateSkinsLoop_runSteps split: ctl.splits)

lemma executeDeploy_runSteps:
  "executeDeploy ex g config s =
     (case runSteps ex config (mandatedSequence g config) [] s of
        Return err s' \<Rightarrow> (Some err, s')
      | Continue exitCodes s' \<Rightarrow> (exitCodesError exitCodes, s'))"
  by (simp add: executeDeploy_def mandatedSequence_def remotePlan_def contains_set
        runSteps_append localBlock_runSteps remoteLoop_runSteps split: ctl.splits)

lemma runEvents_ConsI:
  "stepEvents config st r a \<Longrightarrow> runEvents config outs b
     \<Longrightarrow> runEvents config ((st, r) # outs) (a @ b)"
  by (simp only: runEvents.simps) blast

lemma outsOk_Return:
  "outsOk force plan exitCodes outs (Return err s') \<longleftrightarrow>
     \<not> force \<and> (\<exists>n < length plan.
        outs = map (\<lambda>st. (st, None)) (take n plan) @ [(plan ! n, Some err)])"
  by (simp add: outsOk_def)

lemma outsOk_Continue:
  "outsOk force plan exitCodes outs (Continue exitCodes' s') \<longleftrightarrow>
     map fst outs = plan
     \<and> exitCodes' = exitCodes @ map (\<lambda>out. 1) (filter (\<lambda>out. snd out \<noteq> None) outs)
     \<and> (\<not> force \<longrightarrow> (\<forall>out \<in> set outs. snd out = None))"
  by (simp add: outsOk_def)

lemma outsOk_Cons_None:
  assumes "outsOk force rest exitCodes outs res"
  shows "outsOk force (st # rest) exitCodes ((st, None) # outs) res"
proof (cases res)
  case (Return err s')
  from assms [unfolded Return outsOk_Return] obtain n where n: "\<not> force" "n < length rest"
    "outs = map (\<lambda>st. (st, None)) (take n rest) @ [(rest ! n, Some err)]"
    by blast
  have "Suc n < length (st # rest)" using n(2) by simp
  moreover have "(st, None) # outs =
      map (\<lambda>st. (st, None)) (take (Suc n) (st # rest)) @ [((st # rest) ! Suc n, Some err)]"
    using n(3) by simp
  ultimately show ?thesis unfolding Return outsOk_Return using n(1) by blast
next
  case (Continue exitCodes' s')
  from assms [unfolded Continue outsOk_Continue]
  show ?thesis unfolding Continue outsOk_Continue by simp
qed

lemma outsOk_Cons_Some:
  assumes "outsOk True rest (exitCodes @ [1]) outs res"
  shows "outsOk True (st # rest) exitCodes ((st, Some err) # outs) res"
proof (cases res)
  case (Return err' s')
  from assms [unfolded Return outsOk_Return] show ?thesis by simp
next
  case (Continue exitCodes' s')
  from assms [unfolded Continue outsOk_Continue]
  show ?thesis unfolding Continue outsOk_Continue by simp
qed

lemma outsOk_first_fails:
  "outsOk False (st # rest) exitCodes [(st, Some err)] (Return err s1)"
proof -
  have "0 < length (st # rest)" by simp
  moreover have "[(st, Some err)] =
      map (\<lambda>st. (st, None)) (take 0 (st # rest)) @ [((st # rest) ! 0, Some err)]"
    by simp
  ultimately show ?thesis unfolding outsOk_Return by blast
qed

lemma runSteps_outs:
  "\<exists>outs evs. trace (ctlState (runSteps ex config plan exitCodes s)) = trace s @ evs
      \<and> runEvents config outs evs
      \<and> outsOk (Force config) plan exitCodes outs (runSteps ex config plan exitCodes s)"
proof (induction plan arbitrary: exitCodes s)
  case Nil
  have "trace (ctlState (runSteps ex config [] exitCodes s)) = trace s @ []
      \<and> runEvents config [] []
      \<and> outsOk (Force config) [] exitCodes [] (runSteps ex config [] exitCodes s)"
    by (simp add: ctlState_def outsOk_Continue)
  then show ?case by blast
next
  case (Cons st rest)
  obtain r s1 where step: "runStep ex config st s = (r, s1)"
    by (cases "runStep ex config st s")
  from runStep_stepEvents [OF step] obtain e1 where
    e1: "trace s1 = trace s @ e1" "stepEvents config st r e1" by blast
  show ?case
  proof (cases r)
    case None
    let ?res = "runSteps ex config rest exitCodes s1"
    have res: "runSteps ex config (st # rest) exitCodes s = ?res"
      using step None by (simp add: onError_def)
    from Cons.IH [of exitCodes s1] obtain outs evs where
      ih: "trace (ctlState ?res) = trace s1 @ evs" "runEvents config outs evs"
          "outsOk (Force config) rest exitCodes outs ?res" by blast
    have a: "trace (ctlState ?res) = trace s @ (e1 @ evs)" using ih(1) e1(1) by simp
    have b: "runEvents config ((st, None) # outs) (e1 @ evs)"
      using e1(2) [unfolded None] ih(2) by (rule runEvents_ConsI)
    have c: "outsOk (Force config) (st # rest) exitCodes ((st, None) # outs) ?res"
      using ih(3) by (rule outsOk_Cons_None)
    from a b c show ?thesis unfolding res by blast
  next
    case (Some err)
    show ?thesis
    proof (cases "Force config")
      case True
      let ?res = "runSteps ex config rest (exitCodes @ [1]) s1"
      have res: "runSteps ex config (st # rest) exitCodes s = ?res"
        using step Some True by (simp add: onError_def)
      from Cons.IH [of "exitCodes @ [1]" s1] obtain outs evs where
        ih: "trace (ctlState ?res) = trace s1 @ evs" "runEvents config outs evs"
            "outsOk (Force config) rest (exitCodes @ [1]) outs ?res" by blast
      have a: "trace (ctlState ?res) = trace s @ (e1 @ evs)" using ih(1) e1(1) by simp
      have b: "runEvents config ((st, Some err) # outs) (e1 @ evs)"
        using e1(2) [unfolded Some] ih(2) by (rule runEvents_ConsI)
      have c: "outsOk (Force config) (st # rest) exitCodes ((st, Some err) # outs) ?res"
        using ih(3) True outsOk_Cons_Some [of rest exitCodes outs ?res st err] by simp
      from a b c show ?thesis unfolding res by blast
    next
      case False
      have res: "runSteps ex config (st # rest) exitCodes s = Return err s1"
        using step Some False by (simp add: onError_def)
      have a: "trace (ctlState (Return err s1)) = trace s @ (e1 @ [])"
        using e1(1) by (simp add: ctlState_def)
      have "runEvents config [] []" by simp
      with e1(2) [unfolded Some] have b: "runEvents config [(st, Some err)] (e1 @ [])"
        by (rule runEvents_ConsI)
      have c: "outsOk (Force config) (st # rest) exitCodes [(st, Some err)] (Return err s1)"
        using False outsOk_first_fails by simp
      from a b c show ?thesis unfolding res by blast
    qed
  qed
qed

lemma calls_append: "calls (xs @ ys) = calls xs @ calls ys"
  by (induction xs rule: calls.induct) auto

lemma leaves_append: "leaves (xs @ ys) = leaves xs @ leaves ys"
  by (induction xs rule: leaves.induct) auto

lemma execs_append: "execs (xs @ ys) = execs xs @ execs ys"
  by (induction xs rule: execs.induct) auto

lemma calls_Exec: "calls (map Exec cs) = []"
  by (induction cs) auto

lemma leaves_Exec: "leaves (map Exec cs) = []"
  by (induction cs) auto

lemma execs_Exec: "execs (map Exec cs) = cs"
  by (induction cs) auto

lemma calls_Stdout: "\<forall>e \<in> set pre. \<exists>l. e = Stdout l \<Longrightarrow> calls pre = []"
  by (induction pre) auto

lemma leaves_Stdout: "\<forall>e \<in> set pre. \<exists>l. e = Stdout l \<Longrightarrow> leaves pre = []"
  by (induction pre) auto

lemma execs_Stdout: "\<forall>e \<in> set pre. \<exists>l. e = Stdout l \<Longrightarrow> execs pre = []"
  by (induction pre) auto

lemma stepEvents_calls: "stepEvents config st r evs \<Longrightarrow> calls evs = [st]"
  by (auto simp: stepEvents_def calls_append calls_Exec calls_Stdout)

lemma stepEvents_leaves: "stepEvents config st r evs \<Longrightarrow> leaves evs = [(st, r)]"
  by (auto simp: stepEvents_def leaves_append leaves_Exec leaves_Stdout)

lemma stepEvents_last: "stepEvents config st r evs \<Longrightarrow> evs \<noteq> [] \<and> last evs = Leave st r"
  by (auto simp: stepEvents_def)

lemma runEvents_calls: "runEvents config outs evs \<Longrightarrow> calls evs = map fst outs"
  by (induction outs arbitrary: evs) (auto simp: calls_append stepEvents_calls)

lemma runEvents_leaves: "runEvents config outs evs \<Longrightarrow> leaves evs = outs"
  by (induction outs arbitrary: evs) (auto simp: leaves_append stepEvents_leaves)

lemma runEvents_ConsD:
  "runEvents config ((st, r) # outs) evs
     \<Longrightarrow> \<exists>a b. evs = a @ b \<and> stepEvents config st r a \<and> runEvents config outs b"
  by (simp only: runEvents.simps)

lemma runEvents_appendI:
  "runEvents config xs e1 \<Longrightarrow> runEvents config ys e2 \<Longrightarrow> runEvents config (xs @ ys) (e1 @ e2)"
proof (induction xs arbitrary: e1)
  case Nil
  then show ?case by simp
next
  case (Cons x xs)
  obtain st r where x: "x = (st, r)" by (cases x)
  from Cons.prems(1) [unfolded x, THEN runEvents_ConsD]
  obtain a c where ac: "e1 = a @ c" "stepEvents config st r a" "runEvents config xs c"
    by blast
  have "runEvents config (xs @ ys) (c @ e2)" using Cons.IH [OF ac(3) Cons.prems(2)] .
  from runEvents_ConsI [OF ac(2) this] show ?case using x ac(1) by simp
qed

lemma runEvents_appendD:
  "runEvents config (xs @ ys) evs
     \<Longrightarrow> \<exists>e1 e2. evs = e1 @ e2 \<and> runEvents config xs e1 \<and> runEvents config ys e2"
proof (induction xs arbitrary: evs)
  case Nil
  then have "evs = [] @ evs \<and> runEvents config [] [] \<and> runEvents config ys evs" by simp
  then show ?case by blast
next
  case (Cons x xs)
  obtain st r where x: "x = (st, r)" by (cases x)
  from Cons.prems have "runEvents config ((st, r) # (xs @ ys)) evs" using x by simp
  from runEvents_ConsD [OF this]
  obtain a b where ab: "evs = a @ b" "stepEvents config st r a"
    "runEvents config (xs @ ys) b" by blast
  from Cons.IH [OF ab(3)] obtain c d where cd: "b = c @ d" "runEvents config xs c"
    "runEvents config ys d" by blast
  have 1: "evs = (a @ c) @ d" using ab(1) cd(1) by simp
  have 2: "runEvents config (x # xs) (a @ c)"
    unfolding x using ab(2) cd(2) by (rule runEvents_ConsI)
  from 1 2 cd(3) show ?case by blast
qed

lemma runEvents_last:
  assumes "runEvents config (outs @ [(st, r)]) evs"
  shows "evs \<noteq> [] \<and> last evs = Leave st r"
proof -
  from runEvents_appendD [OF assms]
  obtain e1 e2 where e: "evs = e1 @ e2" "runEvents config [(st, r)] e2" by blast
  from e(2) have "stepEvents config st r e2" by simp
  then have "e2 \<noteq> [] \<and> last e2 = Leave st r" by (rule stepEvents_last)
  with e(1) show ?thesis by simp
qed

lemma exitCodesError_ones:
  "exitCodesError (map (\<lambda>out. 1) xs) =
     (if xs = [] then None else Some ''deployment completed with errors'')"
  by (cases xs) auto

lemma executeDeploy_log:
  assumes "executeDeploy ex g config s = (res, s')"
  shows "trace s' = trace s @ newEvents s s'
    \<and> (\<exists>outs. runEvents config outs (newEvents s s')
         \<and> ((map fst outs = mandatedSequence g config
               \<and> res = (if filter (\<lambda>out. snd out \<noteq> None) outs = [] then None
                         else Some ''deployment completed with errors'')
               \<and> (\<not> Force config \<longrightarrow> (\<forall>out \<in> set outs. snd out = None)))
            \<or> (\<not> Force config
               \<and> (\<exists>n < length (mandatedSequence g config). \<exists>err. res = Some err
                    \<and> outs = map (\<lambda>st. (st, None)) (take n (mandatedSequence g config))
                             @ [(mandatedSequence g config ! n, Some err)]))))"
proof -
  let ?plan = "mandatedSequence g config"
  let ?ctl = "runSteps ex config ?plan [] s"
  from runSteps_outs [of ex config ?plan "[]" s] obtain outs evs where
    o: "trace (ctlState ?ctl) = trace s @ evs" "runEvents config outs evs"
       "outsOk (Force config) ?plan [] outs ?ctl" by blast
  have st: "s' = ctlState ?ctl"
    using assms unfolding executeDeploy_runSteps
    by (cases ?ctl) (auto simp: ctlState_def)
  have new: "newEvents s s' = evs" using o(1) st by (simp add: newEvents_def)
  have tr: "trace s' = trace s @ newEvents s s'" using o(1) st new by simp
  show ?thesis
  proof (cases ?ctl)
    case (Return err s1)
    have res: "res = Some err" using assms Return unfolding executeDeploy_runSteps by simp
    from o(3) [unfolded Return outsOk_Return] obtain n where
      n: "\<not> Force config" "n < length ?plan"
         "outs = map (\<lambda>st. (st, None)) (take n ?plan) @ [(?plan ! n, Some err)]" by blast
    from tr o(2) new n res show ?thesis by blast
  next
    case (Continue exitCodes s1)
    have res: "res = exitCodesError exitCodes"
      using assms Continue unfolding executeDeploy_runSteps by simp
    from o(3) [unfolded Continue outsOk_Continue] have
      c: "map fst outs = ?plan"
         "exitCodes = map (\<lambda>out. 1) (filter (\<lambda>out. snd out \<noteq> None) outs)"
         "\<not> Force config \<longrightarrow> (\<forall>out \<in> set outs. snd out = None)" by simp_all
    have "res = (if filter (\<lambda>out. snd out \<noteq> None) outs = [] then None
                 else Some ''deployment completed with errors'')"
      unfolding res c(2) by (rule exitCodesError_ones)
    with tr o(2) new c show ?thesis by blast
  qed
qed

subsection \<open>The failure policy\<close>

text \<open>
  Claim C3. Under \<^verbatim>\<open>--force\<close> (continue on error), whatever the steps return:
  the steps entered are exactly the mandated sequence, each position of it once and in
  order, every one of them returns, and the run ends in an error, the generic
  "completed with errors", exactly when some step returned an error.
\<close>

theorem force_runs_every_step:
  assumes "Force config"
    and "executeDeploy ex g config s = (res, s')"
  shows "calls (newEvents s s') = mandatedSequence g config
    \<and> map fst (leaves (newEvents s s')) = mandatedSequence g config
    \<and> (res \<noteq> None \<longleftrightarrow> (\<exists>out \<in> set (leaves (newEvents s s')). snd out \<noteq> None))
    \<and> (res = None \<or> res = Some ''deployment completed with errors'')"
proof -
  from executeDeploy_log [OF assms(2)] assms(1) obtain outs where
    o: "runEvents config outs (newEvents s s')"
       "map fst outs = mandatedSequence g config"
       "res = (if filter (\<lambda>out. snd out \<noteq> None) outs = [] then None
               else Some ''deployment completed with errors'')"
    by blast
  have l: "leaves (newEvents s s') = outs" using o(1) by (rule runEvents_leaves)
  have c: "calls (newEvents s s') = map fst outs" using o(1) by (rule runEvents_calls)
  have f: "filter (\<lambda>out. snd out \<noteq> None) outs \<noteq> [] \<longleftrightarrow> (\<exists>out \<in> set outs. snd out \<noteq> None)"
    by (simp add: filter_empty_conv)
  show ?thesis unfolding l c o(2) using o(3) f by auto
qed

text \<open>
  Claim C4. Without \<^verbatim>\<open>--force\<close>, if some step returned an error, that return is
  the last event of the run: the steps before it in the mandated sequence all returned
  without error, no later step was entered, and the run's result is that step's error.
\<close>

theorem fail_fast_stops_at_first_error:
  assumes "\<not> Force config"
    and "executeDeploy ex g config s = (res, s')"
    and "(st, Some err) \<in> set (leaves (newEvents s s'))"
  shows "res = Some err
    \<and> last (newEvents s s') = Leave st (Some err)
    \<and> (\<exists>n < length (mandatedSequence g config).
          st = mandatedSequence g config ! n
          \<and> calls (newEvents s s') = take (Suc n) (mandatedSequence g config)
          \<and> leaves (newEvents s s') =
              map (\<lambda>st. (st, None)) (take n (mandatedSequence g config)) @ [(st, Some err)])"
proof -
  let ?plan = "mandatedSequence g config"
  from executeDeploy_log [OF assms(2)] obtain outs where
    o: "runEvents config outs (newEvents s s')"
    and d: "(map fst outs = ?plan \<and> (\<forall>out \<in> set outs. snd out = None))
       \<or> (\<exists>n < length ?plan. \<exists>err. res = Some err
             \<and> outs = map (\<lambda>st. (st, None)) (take n ?plan) @ [(?plan ! n, Some err)])"
    using assms(1) by blast
  have l: "leaves (newEvents s s') = outs" using o by (rule runEvents_leaves)
  have c: "calls (newEvents s s') = map fst outs" using o by (rule runEvents_calls)
  from assms(3) l have mem: "(st, Some err) \<in> set outs" by simp
  with d obtain n err' where n: "n < length ?plan" "res = Some err'"
    "outs = map (\<lambda>st. (st, None)) (take n ?plan) @ [(?plan ! n, Some err')]"
    by fastforce
  from mem n(3) have eq: "st = ?plan ! n" "err' = err" by auto
  have outs: "outs = map (\<lambda>st. (st, None)) (take n ?plan) @ [(st, Some err)]"
    using n(3) eq by simp
  have last: "last (newEvents s s') = Leave st (Some err)"
    using o [unfolded outs] by (rule runEvents_last [THEN conjunct2])
  have "map fst outs = take (Suc n) ?plan"
    unfolding n(3) using n(1) by (simp add: take_Suc_conv_app_nth comp_def)
  with n(1,2) eq last outs show ?thesis unfolding l c by blast
qed

lemmas run_defs =
  executeDeploy_def localBlock_def onError_def updateVendor_def updateExtension_def
  updateSkin_def rsyncToLocalProduction_def rebuildL10n_def rsyncToRemoteServer_def
  traced_def emit_def cmd_Run_def runCommand_def runRsync_def rsync_command_def
  localRsyncParams_def remoteRsyncParams_def extensionPaths_def skinPaths_def
  newEvents_def Let_def

lemmas path_defs =
  DEPLOYUSER_def EXTENSIONPATH_def SKINPATH_def STAGINGPATH_def PRODUCTIONPATH_def

lemmas example_defs =
  exGlobals_def exConfig_def exStart_def okExecutor_def failRsync_def

lemma ex_force_run:
  "leaves (newEvents exStart
     (snd (executeDeploy failRsync exGlobals (exConfig\<lparr>Force := True\<rparr>) exStart)))
   = [(UpdateExtension ''Foo'', None), (UpdateSkin ''Vector'', None),
      (RsyncToLocalProduction, Some ''exit status 23''),
      (RsyncToRemoteServer ''mw2'', Some ''exit status 23'')]"
  by (simp add: run_defs path_defs example_defs)

lemma ex_failfast_run:
  "leaves (newEvents exStart (snd (executeDeploy failRsync exGlobals exConfig exStart)))
   = [(UpdateExtension ''Foo'', None), (UpdateSkin ''Vector'', None),
      (RsyncToLocalProduction, Some ''exit status 23'')]"
  by (simp add: run_defs path_defs example_defs)

theorem force_runs_every_step_witness:
  "Force (exConfig\<lparr>Force := True\<rparr>)
   \<and> calls (newEvents exStart
        (snd (executeDeploy failRsync exGlobals (exConfig\<lparr>Force := True\<rparr>) exStart)))
     = [UpdateExtension ''Foo'', UpdateSkin ''Vector'', RsyncToLocalProduction,
        RsyncToRemoteServer ''mw2'']
   \<and> fst (executeDeploy failRsync exGlobals (exConfig\<lparr>Force := True\<rparr>) exStart)
     = Some ''deployment completed with errors''"
proof -
  let ?run = "executeDeploy failRsync exGlobals (exConfig\<lparr>Force := True\<rparr>) exStart"
  have f: "Force (exConfig\<lparr>Force := True\<rparr>)" by simp
  have r: "?run = (fst ?run, snd ?run)" by simp
  have plan: "mandatedSequence exGlobals (exConfig\<lparr>Force := True\<rparr>)
      = [UpdateExtension ''Foo'', UpdateSkin ''Vector'', RsyncToLocalProduction,
         RsyncToRemoteServer ''mw2'']"
    by (simp add: mandatedSequence_def localPlan_def remotePlan_def exGlobals_def exConfig_def)
  from force_runs_every_step [OF f r] show ?thesis
    unfolding plan ex_force_run using f by auto
qed

theorem fail_fast_stops_at_first_error_witness:
  "\<not> Force exConfig
   \<and> (RsyncToLocalProduction, Some ''exit status 23'')
       \<in> set (leaves (newEvents exStart
                (snd (executeDeploy failRsync exGlobals exConfig exStart))))
   \<and> fst (executeDeploy failRsync exGlobals exConfig exStart) = Some ''exit status 23''
   \<and> last (newEvents exStart (snd (executeDeploy failRsync exGlobals exConfig exStart)))
       = Leave RsyncToLocalProduction (Some ''exit status 23'')"
proof -
  let ?run = "executeDeploy failRsync exGlobals exConfig exStart"
  have f: "\<not> Force exConfig" by (simp add: exConfig_def)
  have r: "?run = (fst ?run, snd ?run)" by simp
  have m: "(RsyncToLocalProduction, Some ''exit status 23'')
       \<in> set (leaves (newEvents exStart (snd ?run)))"
    unfolding ex_failfast_run by simp
  from fail_fast_stops_at_first_error [OF f r m] f m show ?thesis by simp
qed

lemma untilFailure_append:
  "untilFailure ex (xs @ ys) w =
     (case untilFailure ex xs w of
        (Some err, tried, w') \<Rightarrow> (Some err, tried, w')
      | (None, tried, w') \<Rightarrow>
          (case untilFailure ex ys w' of (r, tried', w'') \<Rightarrow> (r, tried @ tried', w'')))"
  by (induction xs arbitrary: w) (auto split: prod.splits option.splits)

lemma untilFailure_tried:
  "untilFailure ex cs w = (r, tried, w') \<Longrightarrow>
     (\<exists>n \<le> length cs. tried = take n cs) \<and> (r = None \<longrightarrow> tried = cs) \<and> (r \<noteq> None \<longrightarrow> tried \<noteq> [])"
proof (induction cs arbitrary: w r tried w')
  case Nil
  then show ?case by simp
next
  case (Cons c cs)
  obtain r1 w1 where e: "ex c w = (r1, w1)" by (cases "ex c w")
  show ?case
  proof (cases r1)
    case (Some err)
    with Cons.prems e have "r = Some err" "tried = take 1 (c # cs)" by auto
    then show ?thesis by (metis One_nat_def Suc_leI length_Cons list.discI
          option.discI take_Suc_Cons take_0 zero_less_Suc)
  next
    case None
    obtain r2 tried2 w2 where u: "untilFailure ex cs w1 = (r2, tried2, w2)"
      by (cases "untilFailure ex cs w1")
    from Cons.IH [OF u] obtain n where n: "n \<le> length cs" "tried2 = take n cs"
      and rest: "r2 = None \<longrightarrow> tried2 = cs" by blast
    from Cons.prems e None u have eq: "r = r2" "tried = c # tried2" by auto
    have "Suc n \<le> length (c # cs) \<and> tried = take (Suc n) (c # cs)" using n eq by simp
    then have "\<exists>n \<le> length (c # cs). tried = take n (c # cs)" by blast
    with rest eq show ?thesis by simp
  qed
qed

lemma rsyncEach_untilFailure:
  "rsyncEach ex params paths names s =
     (case untilFailure ex
             (map (\<lambda>name. rsync_command params (fst (paths name)) (snd (paths name))) names)
             (world s) of
        (r, tried, w') \<Rightarrow> (r, \<lparr>world = w', trace = trace s @ map Exec tried\<rparr>))"
  by (induction names arbitrary: s)
     (auto simp: runRsync_def cmd_Run_def split: prod.splits option.splits)

lemma rsyncToLocalProduction_untilFailure:
  "rsyncToLocalProduction ex config s =
     (case untilFailure ex (localRsyncCommands config) (world s) of
        (r, tried, w') \<Rightarrow>
          (r, \<lparr>world = w',
               trace = trace s @ [Enter RsyncToLocalProduction] @ map Exec tried
                       @ [Leave RsyncToLocalProduction r]\<rparr>))"
  by (auto simp: rsyncToLocalProduction_def localRsyncCommands_def traced_def emit_def
        Let_def untilFailure_append rsyncEach_untilFailure runRsync_def cmd_Run_def
        split: prod.splits option.splits)

text \<open>
  Claim C9. The local mirror sync runs its mirrors in order until one fails and then
  returns that error at once: the processes it ran are an initial part of the mirrors
  in scope, all of them only if none failed before the last, and the mirrors after a
  failing one are not attempted. The request's \<^verbatim>\<open>Force\<close> plays no part in this:
  the step gives the same result, and leaves the same trace, when it is set.
\<close>

theorem local_sync_stops_at_first_failing_mirror:
  assumes "rsyncToLocalProduction ex config s = (r, s')"
  shows "untilFailure ex (localRsyncCommands config) (world s)
           = (r, execs (newEvents s s'), world s')
    \<and> newEvents s s' = [Enter RsyncToLocalProduction] @ map Exec (execs (newEvents s s'))
                        @ [Leave RsyncToLocalProduction r]
    \<and> (\<exists>n \<le> length (localRsyncCommands config).
          execs (newEvents s s') = take n (localRsyncCommands config))
    \<and> (r = None \<longrightarrow> execs (newEvents s s') = localRsyncCommands config)
    \<and> (r \<noteq> None \<longrightarrow> execs (newEvents s s') \<noteq> [])
    \<and> rsyncToLocalProduction ex (config\<lparr>Force := True\<rparr>) s = (r, s')"
proof -
  obtain r1 tried w1 where
    u: "untilFailure ex (localRsyncCommands config) (world s) = (r1, tried, w1)"
    by (cases "untilFailure ex (localRsyncCommands config) (world s)")
  from assms [unfolded rsyncToLocalProduction_untilFailure u]
  have r: "r1 = r" and s': "s' = \<lparr>world = w1,
      trace = trace s @ [Enter RsyncToLocalProduction] @ map Exec tried
              @ [Leave RsyncToLocalProduction r1]\<rparr>"
    by auto
  have new: "newEvents s s' = [Enter RsyncToLocalProduction] @ map Exec tried
      @ [Leave RsyncToLocalProduction r]"
    unfolding s' r by (simp add: newEvents_def)
  have ex: "execs (newEvents s s') = tried"
    unfolding new by (simp add: execs_append execs_Exec)
  have w: "world s' = w1" unfolding s' by simp
  have force: "rsyncToLocalProduction ex (config\<lparr>Force := True\<rparr>) s = (r, s')"
  proof -
    have "localRsyncCommands (config\<lparr>Force := True\<rparr>) = localRsyncCommands config"
      by (simp add: localRsyncCommands_def localRsyncParams_def)
    then have "rsyncToLocalProduction ex (config\<lparr>Force := True\<rparr>) s
        = rsyncToLocalProduction ex config s"
      by (simp only: rsyncToLocalProduction_untilFailure)
    with assms show ?thesis by simp
  qed
  from untilFailure_tried [OF u] u new force show ?thesis
    unfolding ex w r by simp
qed

theorem local_sync_stops_at_first_failing_mirror_witness:
  "fst (rsyncToLocalProduction failRsync (exConfig\<lparr>Force := True\<rparr>) exStart)
     = Some ''exit status 23''
   \<and> length (localRsyncCommands (exConfig\<lparr>Force := True\<rparr>)) = 2
   \<and> execs (newEvents exStart
        (snd (rsyncToLocalProduction failRsync (exConfig\<lparr>Force := True\<rparr>) exStart)))
     = take 1 (localRsyncCommands (exConfig\<lparr>Force := True\<rparr>))"
proof -
  let ?cfg = "exConfig\<lparr>Force := True\<rparr>"
  let ?run = "rsyncToLocalProduction failRsync ?cfg exStart"
  have r: "?run = (fst ?run, snd ?run)" by simp
  have u: "untilFailure failRsync (localRsyncCommands ?cfg) (world exStart)
      = (Some ''exit status 23'', take 1 (localRsyncCommands ?cfg), 1)"
    by (simp add: localRsyncCommands_def exConfig_def failRsync_def exStart_def
          rsync_command_def)
  have l: "length (localRsyncCommands ?cfg) = 2"
    by (simp add: localRsyncCommands_def exConfig_def)
  from local_sync_stops_at_first_failing_mirror [OF r]
  have "untilFailure failRsync (localRsyncCommands ?cfg) (world exStart)
      = (fst ?run, execs (newEvents exStart (snd ?run)), world (snd ?run))"
    by (rule conjunct1)
  from this [unfolded u] l show ?thesis by auto
qed

subsection \<open>Local before remote\<close>

lemma leaves_mem: "(st, r) \<in> set (leaves evs) \<longleftrightarrow> Leave st r \<in> set evs"
  by (induction evs rule: leaves.induct) auto

lemma calls_mem: "st \<in> set (calls evs) \<longleftrightarrow> Enter st \<in> set evs"
  by (induction evs rule: calls.induct) auto

lemma stepEvents_local_marks:
  assumes "stepEvents config st r evs" and "isLocal st"
  shows "\<forall>e \<in> set evs. \<not> remoteMark e"
proof -
  from assms(1) obtain pre cs where
    evs: "evs = pre @ [Enter st] @ map Exec cs @ [Leave st r]"
    and pre: "\<forall>e \<in> set pre. \<exists>l. e = Stdout l"
    unfolding stepEvents_def by blast
  show ?thesis unfolding evs using pre assms(2) by auto
qed

lemma stepEvents_remote_marks:
  assumes "stepEvents config (RsyncToRemoteServer server) r evs" and "server \<in> S"
  shows "\<forall>e \<in> set evs. \<not> localMark e
           \<and> (\<forall>c. e = Exec c \<longrightarrow> (\<exists>srv \<in> S. c = remoteRsyncCommand srv config))"
proof -
  from assms(1) obtain pre cs where
    evs: "evs = pre @ [Enter (RsyncToRemoteServer server)] @ map Exec cs
                @ [Leave (RsyncToRemoteServer server) r]"
    and pre: "\<forall>e \<in> set pre. \<exists>l. e = Stdout l"
    and cs: "cs = [remoteRsyncCommand server config]"
    unfolding stepEvents_def by blast
  show ?thesis unfolding evs cs using pre assms(2) by auto
qed

lemma runEvents_local_marks:
  "runEvents config outs evs \<Longrightarrow> \<forall>out \<in> set outs. isLocal (fst out)
     \<Longrightarrow> \<forall>e \<in> set evs. \<not> remoteMark e"
proof (induction outs arbitrary: evs)
  case Nil
  then show ?case by simp
next
  case (Cons out outs)
  obtain st r where out: "out = (st, r)" by (cases out)
  from Cons.prems(1) [unfolded out, THEN runEvents_ConsD]
  obtain a b where ab: "evs = a @ b" "stepEvents config st r a" "runEvents config outs b"
    by blast
  have "isLocal st" using Cons.prems(2) out by simp
  from stepEvents_local_marks [OF ab(2) this] have 1: "\<forall>e \<in> set a. \<not> remoteMark e" .
  have 2: "\<forall>e \<in> set b. \<not> remoteMark e" using Cons.IH [OF ab(3)] Cons.prems(2) by simp
  from 1 2 show ?case unfolding ab(1) by auto
qed

lemma runEvents_remote_marks:
  "runEvents config outs evs
     \<Longrightarrow> \<forall>out \<in> set outs. \<exists>srv \<in> S. fst out = RsyncToRemoteServer srv
     \<Longrightarrow> \<forall>e \<in> set evs. \<not> localMark e
           \<and> (\<forall>c. e = Exec c \<longrightarrow> (\<exists>srv \<in> S. c = remoteRsyncCommand srv config))"
proof (induction outs arbitrary: evs)
  case Nil
  then show ?case by simp
next
  case (Cons out outs)
  obtain st r where out: "out = (st, r)" by (cases out)
  from Cons.prems(2) out obtain srv where srv: "srv \<in> S" "st = RsyncToRemoteServer srv"
    by auto
  from Cons.prems(1) [unfolded out, THEN runEvents_ConsD]
  obtain a b where ab: "evs = a @ b" "stepEvents config st r a" "runEvents config outs b"
    by blast
  from stepEvents_remote_marks [OF ab(2) [unfolded srv(2)] srv(1)]
  have 1: "\<forall>e \<in> set a. \<not> localMark e
           \<and> (\<forall>c. e = Exec c \<longrightarrow> (\<exists>srv \<in> S. c = remoteRsyncCommand srv config))" .
  have 2: "\<forall>e \<in> set b. \<not> localMark e
           \<and> (\<forall>c. e = Exec c \<longrightarrow> (\<exists>srv \<in> S. c = remoteRsyncCommand srv config))"
    using Cons.IH [OF ab(3)] Cons.prems(2) by simp
  from 1 2 show ?case unfolding ab(1) by auto
qed

lemma localPlan_isLocal: "\<forall>st \<in> set (localPlan config). isLocal st"
  by (auto simp: localPlan_def)

lemma localPlan_nonempty: "localPlan config \<noteq> []"
  by (simp add: localPlan_def)

lemma remotePlan_remote:
  "\<forall>st \<in> set (remotePlan hostname config).
     \<exists>srv \<in> set (Servers config) - {hostname}. st = RsyncToRemoteServer srv"
  by (auto simp: remotePlan_def)

text \<open>The run's outcomes cover an initial part of the mandated sequence.\<close>

lemma executeDeploy_prefix:
  assumes "executeDeploy ex g config s = (res, s')"
  shows "\<exists>outs m. runEvents config outs (newEvents s s')
      \<and> m \<le> length (mandatedSequence g config)
      \<and> map fst outs = take m (mandatedSequence g config)
      \<and> (Force config \<or> res = None \<longrightarrow> m = length (mandatedSequence g config))
      \<and> (mandatedSequence g config \<noteq> [] \<longrightarrow> 0 < m)"
proof -
  let ?plan = "mandatedSequence g config"
  from executeDeploy_log [OF assms] obtain outs where
    o: "runEvents config outs (newEvents s s')"
    and d: "map fst outs = ?plan
       \<or> (\<not> Force config \<and> (\<exists>n < length ?plan. \<exists>err. res = Some err
             \<and> outs = map (\<lambda>st. (st, None)) (take n ?plan) @ [(?plan ! n, Some err)]))"
    by blast
  from d show ?thesis
  proof
    assume "map fst outs = ?plan"
    then have "length ?plan \<le> length ?plan \<and> map fst outs = take (length ?plan) ?plan
        \<and> (?plan \<noteq> [] \<longrightarrow> 0 < length ?plan)" by simp
    with o show ?thesis by blast
  next
    assume "\<not> Force config \<and> (\<exists>n < length ?plan. \<exists>err. res = Some err
             \<and> outs = map (\<lambda>st. (st, None)) (take n ?plan) @ [(?plan ! n, Some err)])"
    then obtain n err where n: "\<not> Force config" "n < length ?plan" "res = Some err"
      "outs = map (\<lambda>st. (st, None)) (take n ?plan) @ [(?plan ! n, Some err)]" by blast
    have "map fst outs = take (Suc n) ?plan"
      unfolding n(4) using n(2) by (simp add: take_Suc_conv_app_nth comp_def)
    moreover have "Suc n \<le> length ?plan" using n(2) by simp
    ultimately show ?thesis using o n(1,3) by blast
  qed
qed

lemma mandatedSequence_parts:
  "mandatedSequence g config = localPart g config @ remotePlan (HOSTNAME g) config"
  by (simp add: mandatedSequence_def localPart_def)

lemma localPart_isLocal: "\<forall>st \<in> set (localPart g config). isLocal st"
  using localPlan_isLocal [of config] by (auto simp: localPart_def)

lemma executeDeploy_split:
  assumes "executeDeploy ex g config s = (res, s')"
  shows "\<exists>outsL outsR eL eR m.
      newEvents s s' = eL @ eR
      \<and> runEvents config outsL eL \<and> runEvents config outsR eR
      \<and> map fst outsL = take m (localPart g config)
      \<and> map fst outsR = take (m - length (localPart g config)) (remotePlan (HOSTNAME g) config)
      \<and> (Force config \<or> res = None \<longrightarrow> m = length (mandatedSequence g config))
      \<and> (mandatedSequence g config \<noteq> [] \<longrightarrow> 0 < m)
      \<and> (\<forall>e \<in> set eL. \<not> remoteMark e)
      \<and> (\<forall>e \<in> set eR. \<not> localMark e
            \<and> (\<forall>c. e = Exec c \<longrightarrow>
                  (\<exists>srv \<in> set (Servers config) - {HOSTNAME g}.
                     c = remoteRsyncCommand srv config)))"
proof -
  let ?L = "localPart g config" and ?R = "remotePlan (HOSTNAME g) config"
  from executeDeploy_prefix [OF assms] obtain outs m where
    o: "runEvents config outs (newEvents s s')"
       "map fst outs = take m (mandatedSequence g config)"
       "Force config \<or> res = None \<longrightarrow> m = length (mandatedSequence g config)"
       "mandatedSequence g config \<noteq> [] \<longrightarrow> 0 < m"
    by blast
  let ?outsL = "take (length ?L) outs" and ?outsR = "drop (length ?L) outs"
  have fst: "map fst outs = take m ?L @ take (m - length ?L) ?R"
    using o(2) by (simp add: mandatedSequence_parts)
  have l: "map fst ?outsL = take m ?L"
  proof -
    have "map fst ?outsL = take (length ?L) (map fst outs)" by (simp add: take_map)
    also have "\<dots> = take m ?L" unfolding fst by (cases "m \<le> length ?L") auto
    finally show ?thesis .
  qed
  have r: "map fst ?outsR = take (m - length ?L) ?R"
  proof -
    have "map fst ?outsR = drop (length ?L) (map fst outs)" by (simp add: drop_map)
    also have "\<dots> = take (m - length ?L) ?R"
      unfolding fst by (cases "m \<le> length ?L") (auto simp: min_def)
    finally show ?thesis .
  qed
  have "runEvents config (?outsL @ ?outsR) (newEvents s s')" using o(1) by simp
  from runEvents_appendD [OF this] obtain eL eR where
    e: "newEvents s s' = eL @ eR" "runEvents config ?outsL eL" "runEvents config ?outsR eR"
    by blast
  have "\<forall>st \<in> set (map fst ?outsL). isLocal st"
    unfolding l using localPart_isLocal [of g config] by (auto dest: in_set_takeD)
  then have "\<forall>out \<in> set ?outsL. isLocal (fst out)" by simp
  from runEvents_local_marks [OF e(2) this] have ml: "\<forall>e \<in> set eL. \<not> remoteMark e" .
  have "\<forall>st \<in> set (map fst ?outsR).
      \<exists>srv \<in> set (Servers config) - {HOSTNAME g}. st = RsyncToRemoteServer srv"
    unfolding r using remotePlan_remote [of "HOSTNAME g" config] by (auto dest: in_set_takeD)
  then have "\<forall>out \<in> set ?outsR.
      \<exists>srv \<in> set (Servers config) - {HOSTNAME g}. fst out = RsyncToRemoteServer srv"
    by simp
  from runEvents_remote_marks [OF e(3) this]
  have mr: "\<forall>e \<in> set eR. \<not> localMark e
            \<and> (\<forall>c. e = Exec c \<longrightarrow>
                  (\<exists>srv \<in> set (Servers config) - {HOSTNAME g}.
                     c = remoteRsyncCommand srv config))" .
  from e l r o(3,4) ml mr show ?thesis by blast
qed

lemma remotePlan_not_local: "\<forall>st \<in> set (remotePlan hostname config). \<not> isLocal st"
  by (auto simp: remotePlan_def)

lemma filter_none: "\<forall>x \<in> set xs. \<not> P x \<Longrightarrow> filter P xs = []"
  by (induction xs) auto

lemma filter_all: "\<forall>x \<in> set xs. P x \<Longrightarrow> filter P xs = xs"
  by (induction xs) auto

text \<open>The steps entered: an initial part of the local sequence, then, only if that was
  all of it, an initial part of the remote one.\<close>

lemma executeDeploy_calls:
  assumes "executeDeploy ex g config s = (res, s')"
  shows "\<exists>m. calls (newEvents s s') =
             take m (localPart g config)
             @ take (m - length (localPart g config)) (remotePlan (HOSTNAME g) config)
      \<and> (Force config \<or> res = None \<longrightarrow> m = length (mandatedSequence g config))
      \<and> (mandatedSequence g config \<noteq> [] \<longrightarrow> 0 < m)"
proof -
  from executeDeploy_split [OF assms] obtain outsL outsR eL eR m where
    e: "newEvents s s' = eL @ eR" "runEvents config outsL eL" "runEvents config outsR eR"
       "map fst outsL = take m (localPart g config)"
       "map fst outsR = take (m - length (localPart g config)) (remotePlan (HOSTNAME g) config)"
       "Force config \<or> res = None \<longrightarrow> m = length (mandatedSequence g config)"
       "mandatedSequence g config \<noteq> [] \<longrightarrow> 0 < m"
    by blast
  have "calls (newEvents s s') = map fst outsL @ map fst outsR"
    unfolding e(1) calls_append using e(2,3) by (simp add: runEvents_calls)
  with e(4-7) show ?thesis by auto
qed

text \<open>
  Claim C5. The local sequence is entered exactly when the local host's short name is
  among the servers of the request. The remote syncs entered are, in order, those of an
  initial part of the listed servers other than the local host, and of all of them
  when \<^verbatim>\<open>Force\<close> is set or the run ends without error; likewise the local steps
  entered are then the whole local sequence. The local host is never synced to as a
  remote server.
\<close>

theorem local_by_membership_remote_excludes_host:
  assumes "executeDeploy ex g config s = (res, s')"
  shows "((\<exists>st \<in> set (calls (newEvents s s')). isLocal st)
           \<longleftrightarrow> HOSTNAME g \<in> set (Servers config))
    \<and> (\<exists>k. filter (\<lambda>st. \<not> isLocal st) (calls (newEvents s s'))
            = take k (map RsyncToRemoteServer
                        (filter (\<lambda>server. server \<noteq> HOSTNAME g) (Servers config))))
    \<and> RsyncToRemoteServer (HOSTNAME g) \<notin> set (calls (newEvents s s'))
    \<and> (Force config \<or> res = None \<longrightarrow>
          filter (\<lambda>st. \<not> isLocal st) (calls (newEvents s s'))
            = map RsyncToRemoteServer
                (filter (\<lambda>server. server \<noteq> HOSTNAME g) (Servers config))
          \<and> filter isLocal (calls (newEvents s s'))
            = (if HOSTNAME g \<in> set (Servers config) then localPlan config else []))"
proof -
  let ?L = "localPart g config" and ?R = "remotePlan (HOSTNAME g) config"
  from executeDeploy_calls [OF assms] obtain m where
    c: "calls (newEvents s s') = take m ?L @ take (m - length ?L) ?R"
    and full: "Force config \<or> res = None \<longrightarrow> m = length (mandatedSequence g config)"
    and pos: "mandatedSequence g config \<noteq> [] \<longrightarrow> 0 < m"
    by blast
  have tl: "\<forall>st \<in> set (take m ?L). isLocal st"
    using localPart_isLocal [of g config] by (auto dest: in_set_takeD)
  have tr: "\<forall>st \<in> set (take (m - length ?L) ?R). \<not> isLocal st"
    using remotePlan_not_local [of "HOSTNAME g" config] by (auto dest: in_set_takeD)
  have fr: "filter (\<lambda>st. \<not> isLocal st) (calls (newEvents s s')) = take (m - length ?L) ?R"
    unfolding c using tl tr by (simp add: filter_none filter_all)
  have fl: "filter isLocal (calls (newEvents s s')) = take m ?L"
    unfolding c using tl tr by (simp add: filter_none filter_all)
  have 1: "(\<exists>st \<in> set (calls (newEvents s s')). isLocal st)
           \<longleftrightarrow> HOSTNAME g \<in> set (Servers config)"
  proof
    assume "\<exists>st \<in> set (calls (newEvents s s')). isLocal st"
    then obtain st where st: "st \<in> set (calls (newEvents s s'))" "isLocal st" by blast
    from st(1) have "st \<in> set (take m ?L) \<or> st \<in> set (take (m - length ?L) ?R)"
      unfolding c by simp
    with tr st(2) have "st \<in> set (take m ?L)" by blast
    then have "st \<in> set ?L" by (rule in_set_takeD)
    then show "HOSTNAME g \<in> set (Servers config)"
      by (auto simp: localPart_def split: if_splits)
  next
    assume h: "HOSTNAME g \<in> set (Servers config)"
    then have L: "?L = localPlan config" by (simp add: localPart_def)
    have "mandatedSequence g config \<noteq> []"
      unfolding mandatedSequence_parts L using localPlan_nonempty by simp
    with pos have "0 < m" by simp
    then have "take m ?L \<noteq> []" unfolding L using localPlan_nonempty [of config] by simp
    then obtain st where "st \<in> set (take m ?L)" by (cases "take m ?L") auto
    with tl show "\<exists>st \<in> set (calls (newEvents s s')). isLocal st" unfolding c by auto
  qed
  have 2: "\<exists>k. filter (\<lambda>st. \<not> isLocal st) (calls (newEvents s s'))
            = take k (map RsyncToRemoteServer
                        (filter (\<lambda>server. server \<noteq> HOSTNAME g) (Servers config)))"
    using fr unfolding remotePlan_def by blast
  have 3: "RsyncToRemoteServer (HOSTNAME g) \<notin> set (calls (newEvents s s'))"
  proof
    assume "RsyncToRemoteServer (HOSTNAME g) \<in> set (calls (newEvents s s'))"
    then have "RsyncToRemoteServer (HOSTNAME g) \<in> set (take m ?L)
        \<or> RsyncToRemoteServer (HOSTNAME g) \<in> set (take (m - length ?L) ?R)"
      unfolding c by simp
    then show False
    proof
      assume "RsyncToRemoteServer (HOSTNAME g) \<in> set (take m ?L)"
      with tl show False by auto
    next
      assume "RsyncToRemoteServer (HOSTNAME g) \<in> set (take (m - length ?L) ?R)"
      then have "RsyncToRemoteServer (HOSTNAME g) \<in> set ?R" by (rule in_set_takeD)
      then show False by (auto simp: remotePlan_def)
    qed
  qed
  have 4: "filter (\<lambda>st. \<not> isLocal st) (calls (newEvents s s'))
            = map RsyncToRemoteServer
                (filter (\<lambda>server. server \<noteq> HOSTNAME g) (Servers config))
          \<and> filter isLocal (calls (newEvents s s'))
            = (if HOSTNAME g \<in> set (Servers config) then localPlan config else [])"
    if "Force config \<or> res = None"
  proof -
    from full that have m: "m = length ?L + length ?R"
      by (simp add: mandatedSequence_parts)
    show ?thesis unfolding fr fl m by (simp add: remotePlan_def localPart_def)
  qed
  from 1 2 3 4 show ?thesis by blast
qed

lemma ex_failfast_calls:
  "calls (newEvents exStart (snd (executeDeploy failRsync exGlobals exConfig exStart)))
   = [UpdateExtension ''Foo'', UpdateSkin ''Vector'', RsyncToLocalProduction]"
  by (simp add: run_defs path_defs example_defs)

theorem local_by_membership_remote_excludes_host_witness:
  "filter (\<lambda>st. \<not> isLocal st)
     (calls (newEvents exStart
        (snd (executeDeploy failRsync exGlobals (exConfig\<lparr>Force := True\<rparr>) exStart))))
   = [RsyncToRemoteServer ''mw2'']
   \<and> filter isLocal
     (calls (newEvents exStart
        (snd (executeDeploy failRsync exGlobals (exConfig\<lparr>Force := True\<rparr>) exStart))))
   = [UpdateExtension ''Foo'', UpdateSkin ''Vector'', RsyncToLocalProduction]"
proof -
  let ?run = "executeDeploy failRsync exGlobals (exConfig\<lparr>Force := True\<rparr>) exStart"
  have r: "?run = (fst ?run, snd ?run)" by simp
  from local_by_membership_remote_excludes_host [OF r] show ?thesis
    by (simp add: exGlobals_def exConfig_def localPlan_def)
qed

text \<open>The claim as it is written fails: without \<^verbatim>\<open>Force\<close>, a failing local mirror
  sync ends the run, and the listed server \<^verbatim>\<open>mw2\<close> is never synced.\<close>

theorem remote_sync_skipped_after_abort:
  "validateConfig exGlobals exConfig = None
   \<and> ''mw2'' \<in> set (Servers exConfig) \<and> ''mw2'' \<noteq> HOSTNAME exGlobals
   \<and> RsyncToRemoteServer ''mw2'' \<notin> set (calls (newEvents exStart
        (snd (executeDeploy failRsync exGlobals exConfig exStart))))"
  unfolding ex_failfast_calls by (simp add: validateConfig_def exGlobals_def exConfig_def)

text \<open>
  Claim C6. Whenever a remote mirror sync is entered, every entry and return of a local
  step lies before it in the trace, every process run after it is a remote mirror sync
  of a listed server, and, when the local host is among the servers, the local steps
  that have returned by then are the whole local sequence.
\<close>

theorem remote_sync_after_local_sequence:
  assumes "executeDeploy ex g config s = (res, s')"
    and "i < length (newEvents s s')"
    and "newEvents s s' ! i = Enter (RsyncToRemoteServer server)"
  shows "(\<forall>j < length (newEvents s s'). localMark (newEvents s s' ! j) \<longrightarrow> j < i)
    \<and> (\<forall>j < length (newEvents s s'). i < j \<longrightarrow>
          (\<forall>c. newEvents s s' ! j = Exec c \<longrightarrow>
             (\<exists>srv \<in> set (Servers config). c = remoteRsyncCommand srv config)))
    \<and> (HOSTNAME g \<in> set (Servers config) \<longrightarrow>
          filter isLocal (map fst (leaves (take i (newEvents s s')))) = localPlan config)"
proof -
  let ?L = "localPart g config" and ?R = "remotePlan (HOSTNAME g) config"
  let ?new = "newEvents s s'"
  from executeDeploy_split [OF assms(1)] obtain outsL outsR eL eR m where
    e: "?new = eL @ eR" "runEvents config outsL eL" "runEvents config outsR eR"
       "map fst outsL = take m ?L"
       "map fst outsR = take (m - length ?L) ?R"
    and ml: "\<forall>e \<in> set eL. \<not> remoteMark e"
    and mr: "\<forall>e \<in> set eR. \<not> localMark e
            \<and> (\<forall>c. e = Exec c \<longrightarrow>
                  (\<exists>srv \<in> set (Servers config) - {HOSTNAME g}.
                     c = remoteRsyncCommand srv config))"
    by blast
  have i: "length eL \<le> i"
  proof (rule ccontr)
    assume "\<not> length eL \<le> i"
    then have "i < length eL" by simp
    then have "?new ! i \<in> set eL" unfolding e(1) by (simp add: nth_append)
    with ml have "\<not> remoteMark (?new ! i)" by blast
    then show False unfolding assms(3) by simp
  qed
  have inR: "?new ! j \<in> set eR" if "j < length ?new" "length eL \<le> j" for j
  proof -
    have "?new ! j = eR ! (j - length eL)" using that unfolding e(1) by (simp add: nth_append)
    moreover have "j - length eL < length eR" using that unfolding e(1) by auto
    ultimately show ?thesis by simp
  qed
  have 1: "\<forall>j < length ?new. localMark (?new ! j) \<longrightarrow> j < i"
  proof (intro allI impI)
    fix j assume j: "j < length ?new" "localMark (?new ! j)"
    have "j < length eL"
    proof (rule ccontr)
      assume "\<not> j < length eL"
      then have "?new ! j \<in> set eR" using inR [OF j(1)] by simp
      with mr j(2) show False by blast
    qed
    with i show "j < i" by simp
  qed
  have 2: "\<forall>j < length ?new. i < j \<longrightarrow>
          (\<forall>c. ?new ! j = Exec c \<longrightarrow>
             (\<exists>srv \<in> set (Servers config). c = remoteRsyncCommand srv config))"
  proof (intro allI impI)
    fix j c assume j: "j < length ?new" "i < j" "?new ! j = Exec c"
    have "?new ! j \<in> set eR" using inR [OF j(1)] i j(2) by simp
    with mr j(3) show "\<exists>srv \<in> set (Servers config). c = remoteRsyncCommand srv config"
      by auto
  qed
  have 3: "filter isLocal (map fst (leaves (take i ?new))) = localPlan config"
    if h: "HOSTNAME g \<in> set (Servers config)"
  proof -
    have L: "?L = localPlan config" using h by (simp add: localPart_def)
    have "eR \<noteq> []" using assms(2) i unfolding e(1) by auto
    then have "outsR \<noteq> []" using e(3) by (cases outsR) auto
    then have "take (m - length ?L) ?R \<noteq> []" using e(5) by auto
    then have "length ?L < m" by (cases "length ?L < m") auto
    then have full: "map fst outsL = localPlan config" using e(4) L by simp
    have tk: "take i ?new = eL @ take (i - length eL) eR"
      unfolding e(1) using i by simp
    have lv: "leaves (take i ?new) = outsL @ leaves (take (i - length eL) eR)"
      unfolding tk leaves_append using e(2) by (simp add: runEvents_leaves)
    have "\<forall>out \<in> set (leaves (take (i - length eL) eR)). \<not> isLocal (fst out)"
    proof
      fix out assume o: "out \<in> set (leaves (take (i - length eL) eR))"
      obtain st r where out: "out = (st, r)" by (cases out)
      from o out have "Leave st r \<in> set (take (i - length eL) eR)"
        by (simp add: leaves_mem)
      then have "Leave st r \<in> set eR" by (rule in_set_takeD)
      with mr have "\<not> localMark (Leave st r)" by blast
      then show "\<not> isLocal (fst out)" using out by simp
    qed
    then have r0: "filter isLocal (map fst (leaves (take (i - length eL) eR))) = []"
      by (simp add: filter_none)
    have "\<forall>st \<in> set (map fst outsL). isLocal st"
      unfolding full using localPlan_isLocal [of config] by simp
    then have l0: "filter isLocal (map fst outsL) = map fst outsL"
      by (rule filter_all)
    show ?thesis unfolding lv using r0 l0 full by simp
  qed
  from 1 2 3 show ?thesis by blast
qed

lemma ex_force_trace:
  "newEvents exStart
     (snd (executeDeploy failRsync exGlobals (exConfig\<lparr>Force := True\<rparr>) exStart)) =
   [Stdout ''Updating extension: Foo'', Enter (UpdateExtension ''Foo''),
    Exec \<lparr>cmd_name = ''git'',
          cmd_args = [''-C'', ''/prod/mediawiki-staging/extensions//Foo'', ''pull'',
                      ''--recurse-submodules'', ''--quiet''],
          cmd_dir = [], cmd_forward = True\<rparr>,
    Leave (UpdateExtension ''Foo'') None,
    Stdout ''Updating skin: Vector'', Enter (UpdateSkin ''Vector''),
    Exec \<lparr>cmd_name = ''git'',
          cmd_args = [''-C'', ''/prod/mediawiki-staging/skins//Vector'', ''pull'', ''--quiet''],
          cmd_dir = [], cmd_forward = True\<rparr>,
    Leave (UpdateSkin ''Vector'') None,
    Enter RsyncToLocalProduction,
    Exec \<lparr>cmd_name = ''rsync'',
          cmd_args = [''--update'', ''-r'', ''--delete'', ''--exclude=.*'',
                      ''/prod/mediawiki-staging/extensions//Foo/'',
                      ''/prod/mediawiki/extensions/Foo/''],
          cmd_dir = [], cmd_forward = True\<rparr>,
    Leave RsyncToLocalProduction (Some ''exit status 23''),
    Stdout ''Syncing to remote server: mw2'', Enter (RsyncToRemoteServer ''mw2''),
    Exec \<lparr>cmd_name = ''rsync'',
          cmd_args = [''--update'', ''-e'', ''ssh'', ''-i'',
                      ''/prod/mediawiki-staging/deploykey'', ''-r'', ''--delete'',
                      ''--exclude=.*'', ''/prod/mediawiki/'',
                      ''mediawikiuser@mw2:/prod/mediawiki/''],
          cmd_dir = [], cmd_forward = True\<rparr>,
    Leave (RsyncToRemoteServer ''mw2'') (Some ''exit status 23'')]"
  by (simp add: run_defs path_defs example_defs)

theorem remote_sync_after_local_sequence_witness:
  "newEvents exStart
     (snd (executeDeploy failRsync exGlobals (exConfig\<lparr>Force := True\<rparr>) exStart)) ! 12
   = Enter (RsyncToRemoteServer ''mw2'')
   \<and> HOSTNAME exGlobals \<in> set (Servers (exConfig\<lparr>Force := True\<rparr>))
   \<and> filter isLocal (map fst (leaves (take 12 (newEvents exStart
        (snd (executeDeploy failRsync exGlobals (exConfig\<lparr>Force := True\<rparr>) exStart))))))
     = [UpdateExtension ''Foo'', UpdateSkin ''Vector'', RsyncToLocalProduction]"
proof -
  let ?run = "executeDeploy failRsync exGlobals (exConfig\<lparr>Force := True\<rparr>) exStart"
  have r: "?run = (fst ?run, snd ?run)" by simp
  have i: "12 < length (newEvents exStart (snd ?run))"
    unfolding ex_force_trace by simp
  have e: "newEvents exStart (snd ?run) ! 12 = Enter (RsyncToRemoteServer ''mw2'')"
    unfolding ex_force_trace by simp
  have h: "HOSTNAME exGlobals \<in> set (Servers (exConfig\<lparr>Force := True\<rparr>))"
    by (simp add: exGlobals_def exConfig_def)
  have p: "localPlan (exConfig\<lparr>Force := True\<rparr>)
      = [UpdateExtension ''Foo'', UpdateSkin ''Vector'', RsyncToLocalProduction]"
    by (simp add: localPlan_def exConfig_def)
  from remote_sync_after_local_sequence [OF r i e] h e p show ?thesis by simp
qed

subsection \<open>Targets listed more than once\<close>
















end
